theory Spec2Isabelle
  imports Main
begin

section \<open>Data model of the weekly planner (App.tsx)\<close>

text \<open>
  The interface \<open>Task\<close>. The field \<open>id\<close> is called \<open>task_id\<close> here, since \<open>id\<close> is the
  identity function of HOL. The numbers of the source are integers in every state the
  component can reach (seed ids 1 to 8, then \<open>Math.max(...) + 1\<close>; points from the seed
  or from \<open>parseInt\<close>), far below the range where doubles stop being exact, so they are
  \<open>int\<close>. Task objects are never mutated in place (every change builds a new object by
  spread), so a task is a value.
\<close>

record Task =
  task_id :: int
  title :: string
  description :: string
  points :: int

text \<open>
  \<open>TasksState\<close> is \<open>Record<string, Task[]>\<close>. Its keys are the seven names of \<open>weekdays\<close>
  from the initial state on: no handler adds or deletes a key, and the JSX calls
  \<open>pasteTasksToDay\<close> and \<open>handleDayDrop\<close> only from \<open>weekdays.map\<close>. The key type is
  therefore the enumeration \<open>day\<close>, and \<open>Object.keys\<close>, \<open>Object.values\<close> and
  \<open>for (const day of weekdays)\<close> all run through \<open>weekdays\<close> in this order.
\<close>

datatype day = Lundi | Mardi | Mercredi | Jeudi | Vendredi | Samedi | Dimanche

definition weekdays :: "day list" where
  "weekdays = [Lundi, Mardi, Mercredi, Jeudi, Vendredi, Samedi, Dimanche]"

type_synonym TasksState = "day \<Rightarrow> Task list"

text \<open>\<open>DraggedTaskState\<close>: \<open>null\<close> is \<open>None\<close>.\<close>

datatype DraggedTask = SingleTask Task | MultiTasks "Task list"

datatype ClipboardMode = Copy | Cut

record TaskFormData =
  form_title :: string
  form_description :: string
  form_points :: int

text \<open>The \<open>useState\<close> cells of \<open>WeeklyPlanner\<close>, as one record.\<close>

record planner =
  tasks :: TasksState
  folder :: "Task list"
  draggedTask :: "DraggedTask option"
  selectedTasks :: "Task list"
  clipboard :: "Task list"
  clipboardMode :: ClipboardMode
  isModalOpen :: bool
  currentTask :: "Task option"
  formData :: TaskFormData

section \<open>Helpers that the source writes inline\<close>

text \<open>\<open>xs.some((t) => t.id === i)\<close>\<close>

definition some_id :: "Task list \<Rightarrow> int \<Rightarrow> bool" where
  "some_id xs i = list_ex (\<lambda>t. task_id t = i) xs"

text \<open>\<open>xs.filter((t) => t.id !== i)\<close>\<close>

definition without_id :: "Task list \<Rightarrow> int \<Rightarrow> Task list" where
  "without_id xs i = filter (\<lambda>t. task_id t \<noteq> i) xs"

text \<open>
  The first day whose bucket holds the id: \<open>Object.keys(newTasks).find(...)\<close> in
  \<open>cutSelectedTasks\<close>, the \<open>for\<close> loop with \<open>break\<close> in \<open>handleDayDrop\<close>.
\<close>

definition sourceDay :: "TasksState \<Rightarrow> int \<Rightarrow> day option" where
  "sourceDay newTasks i = find (\<lambda>d. some_id (newTasks d) i) weekdays"

text \<open>\<open>Object.values(newTasks).flat()\<close>\<close>

definition all_tasks :: "TasksState \<Rightarrow> Task list" where
  "all_tasks newTasks = concat (map newTasks weekdays)"

section \<open>Selection\<close>

definition selectTask :: "Task \<Rightarrow> bool \<Rightarrow> planner \<Rightarrow> planner" where
  "selectTask task isCtrlPressed s =
     (if isCtrlPressed then
        (let isAlreadySelected = some_id (selectedTasks s) (task_id task) in
         s\<lparr>selectedTasks :=
             (if isAlreadySelected then without_id (selectedTasks s) (task_id task)
              else selectedTasks s @ [task])\<rparr>)
      else
        s\<lparr>selectedTasks :=
            (if length (selectedTasks s) = 1 \<and> task_id (hd (selectedTasks s)) = task_id task
             then [] else [task])\<rparr>)"

section \<open>Clipboard\<close>

definition copySelectedTasks :: "planner \<Rightarrow> planner" where
  "copySelectedTasks s =
     (if length (selectedTasks s) > 0 then
        (let s1 = (if clipboardMode s = Cut then s\<lparr>clipboard := []\<rparr> else s) in
         s1\<lparr>clipboard := selectedTasks s, clipboardMode := Copy\<rparr>)
      else s)"

text \<open>One round of the \<open>forEach\<close> of \<open>cutSelectedTasks\<close>.\<close>

definition cutOne :: "TasksState \<Rightarrow> Task \<Rightarrow> TasksState" where
  "cutOne newTasks taskToCut =
     (case sourceDay newTasks (task_id taskToCut) of
        None \<Rightarrow> newTasks
      | Some src \<Rightarrow> newTasks(src := without_id (newTasks src) (task_id taskToCut)))"

definition cutSelectedTasks :: "planner \<Rightarrow> planner" where
  "cutSelectedTasks s =
     (if length (selectedTasks s) > 0 then
        s\<lparr>clipboard := selectedTasks s,
          clipboardMode := Cut,
          tasks := foldl cutOne (tasks s) (selectedTasks s),
          selectedTasks := []\<rparr>
      else s)"

text \<open>\<open>allTaskIds.length > 0 ? Math.max(...allTaskIds) + 1 : 1\<close>\<close>

definition nextId :: "TasksState \<Rightarrow> int" where
  "nextId newTasks =
     (let allTaskIds = map task_id (all_tasks newTasks) in
      if length allTaskIds > 0 then fold max (tl allTaskIds) (hd allTaskIds) + 1 else 1)"

text \<open>\<open>clipboard.map((task) => ({ ...task, id: nextId++ }))\<close>\<close>

fun taskCopies :: "int \<Rightarrow> Task list \<Rightarrow> Task list" where
  "taskCopies n [] = []"
| "taskCopies n (task # rest) = task\<lparr>task_id := n\<rparr> # taskCopies (n + 1) rest"

definition pasteTasksToDay :: "day \<Rightarrow> planner \<Rightarrow> planner" where
  "pasteTasksToDay d s =
     (if length (clipboard s) = 0 then s
      else if clipboardMode s = Cut then
        s\<lparr>tasks := (tasks s)(d := tasks s d @ clipboard s),
          clipboard := [],
          clipboardMode := Copy\<rparr>
      else
        s\<lparr>tasks := (tasks s)(d := tasks s d @ taskCopies (nextId (tasks s)) (clipboard s))\<rparr>)"

section \<open>Billing folder\<close>

text \<open>\<open>xs.filter((task) => !folder.some((folderTask) => folderTask.id === task.id))\<close>\<close>

definition newTasksForFolder :: "Task list \<Rightarrow> Task list \<Rightarrow> Task list" where
  "newTasksForFolder fld xs = filter (\<lambda>task. \<not> some_id fld (task_id task)) xs"

definition addSelectedTasksToFolder :: "planner \<Rightarrow> planner" where
  "addSelectedTasksToFolder s =
     (if length (selectedTasks s) > 0 then
        (let new = newTasksForFolder (folder s) (selectedTasks s);
             s1 = (if length new > 0 then s\<lparr>folder := folder s @ new\<rparr> else s)
         in s1\<lparr>selectedTasks := []\<rparr>)
      else s)"

definition removeFromFolder :: "int \<Rightarrow> planner \<Rightarrow> planner" where
  "removeFromFolder taskId s = s\<lparr>folder := without_id (folder s) taskId\<rparr>"

section \<open>Editing\<close>

definition openEditModal :: "Task \<Rightarrow> planner \<Rightarrow> planner" where
  "openEditModal task s =
     s\<lparr>currentTask := Some task,
       formData := \<lparr>form_title = title task, form_description = description task,
                    form_points = points task\<rparr>,
       isModalOpen := True\<rparr>"

definition closeModal :: "planner \<Rightarrow> planner" where
  "closeModal s = s\<lparr>isModalOpen := False, currentTask := None\<rparr>"

text \<open>
  \<open>handleFormChange\<close>: a text field is stored as it is; for \<open>points\<close> the argument is the
  integer that \<open>parseInt(value, 10) || 0\<close> evaluates to.
\<close>

datatype FormChange = ChangeTitle string | ChangeDescription string | ChangePoints int

fun handleFormChange :: "FormChange \<Rightarrow> planner \<Rightarrow> planner" where
  "handleFormChange (ChangeTitle v) s = s\<lparr>formData := (formData s)\<lparr>form_title := v\<rparr>\<rparr>"
| "handleFormChange (ChangeDescription v) s = s\<lparr>formData := (formData s)\<lparr>form_description := v\<rparr>\<rparr>"
| "handleFormChange (ChangePoints n) s = s\<lparr>formData := (formData s)\<lparr>form_points := n\<rparr>\<rparr>"

text \<open>\<open>{ ...t, ...updatedTaskData }\<close>\<close>

definition updated :: "TaskFormData \<Rightarrow> Task \<Rightarrow> Task" where
  "updated f t = t\<lparr>title := form_title f, description := form_description f, points := form_points f\<rparr>"

text \<open>\<open>xs.findIndex(p)\<close>, with \<open>None\<close> for \<open>-1\<close>.\<close>

fun findIndex :: "('a \<Rightarrow> bool) \<Rightarrow> 'a list \<Rightarrow> nat option" where
  "findIndex p [] = None"
| "findIndex p (x # xs) = (if p x then Some 0 else map_option Suc (findIndex p xs))"

text \<open>The \<open>for (const day of weekdays)\<close> loop of \<open>saveChanges\<close>, with its \<open>break\<close>.\<close>

fun saveLoop :: "day list \<Rightarrow> int \<Rightarrow> TaskFormData \<Rightarrow> TasksState \<Rightarrow> TasksState" where
  "saveLoop [] i f newTasks = newTasks"
| "saveLoop (d # ds) i f newTasks =
     (case findIndex (\<lambda>t. task_id t = i) (newTasks d) of
        Some taskIndex \<Rightarrow> newTasks(d := (newTasks d)[taskIndex := updated f (newTasks d ! taskIndex)])
      | None \<Rightarrow> saveLoop ds i f newTasks)"

definition saveChanges :: "planner \<Rightarrow> planner" where
  "saveChanges s =
     (case currentTask s of
        None \<Rightarrow> s
      | Some cur \<Rightarrow>
          closeModal
            (s\<lparr>tasks := saveLoop weekdays (task_id cur) (formData s) (tasks s),
               selectedTasks :=
                 map (\<lambda>t. if task_id t = task_id cur then updated (formData s) t else t)
                   (selectedTasks s),
               folder :=
                 map (\<lambda>t. if task_id t = task_id cur then updated (formData s) t else t)
                   (folder s)\<rparr>))"

section \<open>Drag and drop\<close>

definition handleDragStart :: "Task \<Rightarrow> planner \<Rightarrow> planner" where
  "handleDragStart task s =
     (let isTaskSelected = some_id (selectedTasks s) (task_id task) in
      if isTaskSelected \<and> length (selectedTasks s) > 1 then
        s\<lparr>draggedTask := Some (MultiTasks (selectedTasks s))\<rparr>
      else
        (let s1 = (if \<not> isTaskSelected \<or> length (selectedTasks s) > 1
                   then s\<lparr>selectedTasks := [task]\<rparr> else s)
         in s1\<lparr>draggedTask := Some (SingleTask task)\<rparr>))"

text \<open>\<open>"multiTasks" in draggedTask ? draggedTask.multiTasks : [draggedTask.singleTask]\<close>\<close>

fun tasksOf :: "DraggedTask \<Rightarrow> Task list" where
  "tasksOf (MultiTasks ts) = ts"
| "tasksOf (SingleTask t) = [t]"

text \<open>
  One round of the \<open>forEach\<close> of \<open>handleDayDrop\<close>, on the pair of the locals
  \<open>newTasks\<close> and \<open>changed\<close>.
\<close>

definition moveOne :: "day \<Rightarrow> TasksState \<times> bool \<Rightarrow> Task \<Rightarrow> TasksState \<times> bool" where
  "moveOne targetDayName acc taskToMove =
     (case acc of (newTasks, changed) \<Rightarrow>
        (case sourceDay newTasks (task_id taskToMove) of
           None \<Rightarrow> (newTasks, changed)
         | Some src \<Rightarrow>
             if src \<noteq> targetDayName then
               (let removed = newTasks(src := without_id (newTasks src) (task_id taskToMove));
                    added =
                      (if \<not> some_id (removed targetDayName) (task_id taskToMove)
                       then removed(targetDayName := removed targetDayName @ [taskToMove])
                       else removed)
                in (added, True))
             else (newTasks, changed)))"

definition handleDayDrop :: "day \<Rightarrow> planner \<Rightarrow> planner" where
  "handleDayDrop targetDayName s =
     (case draggedTask s of
        None \<Rightarrow> s
      | Some dragged \<Rightarrow>
          (case foldl (moveOne targetDayName) (tasks s, False) (tasksOf dragged) of
             (newTasks, changed) \<Rightarrow>
               s\<lparr>tasks := (if changed then newTasks else tasks s), draggedTask := None\<rparr>))"

definition handleFolderDrop :: "planner \<Rightarrow> planner" where
  "handleFolderDrop s =
     (case draggedTask s of
        None \<Rightarrow> s
      | Some dragged \<Rightarrow>
          (let new = newTasksForFolder (folder s) (tasksOf dragged);
               s1 = (if length new > 0 then s\<lparr>folder := folder s @ new\<rparr> else s)
           in s1\<lparr>draggedTask := None\<rparr>))"

section \<open>The initial state and the reachable states\<close>

text \<open>
  The seed of \<open>useState\<close>. The accented letters and apostrophes of the French titles
  and descriptions are written in plain ASCII; no handler inspects them.
\<close>

definition mk :: "int \<Rightarrow> string \<Rightarrow> string \<Rightarrow> int \<Rightarrow> Task" where
  "mk i t d p = \<lparr>task_id = i, title = t, description = d, points = p\<rparr>"

fun initialTasks :: TasksState where
  "initialTasks Lundi =
     [mk 1 ''Reunion d equipe'' ''9h - Point hebdomadaire'' 2,
      mk 2 ''Analyse des besoins'' ''Recueillir les besoins client'' 5]"
| "initialTasks Mardi =
     [mk 3 ''Conception UI'' ''Creer les maquettes'' 8,
      mk 4 ''Revue de code'' ''Revue des PR en attente'' 3]"
| "initialTasks Mercredi = [mk 5 ''Developpement API'' ''Endpoints backend'' 13]"
| "initialTasks Jeudi =
     [mk 6 ''Tests fonctionnels'' ''Tests d acceptation'' 5,
      mk 7 ''Documentation'' ''Mise a jour de la doc technique'' 3]"
| "initialTasks Vendredi = [mk 8 ''Deploiement'' ''Mise en production v1.2'' 8]"
| "initialTasks Samedi = []"
| "initialTasks Dimanche = []"

definition initial :: planner where
  "initial =
     \<lparr>tasks = initialTasks, folder = [], draggedTask = None, selectedTasks = [],
      clipboard = [], clipboardMode = Copy, isModalOpen = False, currentTask = None,
      formData = \<lparr>form_title = [], form_description = [], form_points = 0\<rparr>\<rparr>"

text \<open>
  The states the component reaches from the seed by its handlers. The task arguments are
  left arbitrary, which covers the cards the JSX renders.
\<close>

inductive reachable :: "planner \<Rightarrow> bool" where
  r_initial: "reachable initial"
| r_select: "reachable s \<Longrightarrow> reachable (selectTask t c s)"
| r_copy: "reachable s \<Longrightarrow> reachable (copySelectedTasks s)"
| r_cut: "reachable s \<Longrightarrow> reachable (cutSelectedTasks s)"
| r_paste: "reachable s \<Longrightarrow> reachable (pasteTasksToDay d s)"
| r_add: "reachable s \<Longrightarrow> reachable (addSelectedTasksToFolder s)"
| r_remove: "reachable s \<Longrightarrow> reachable (removeFromFolder i s)"
| r_open: "reachable s \<Longrightarrow> reachable (openEditModal t s)"
| r_close: "reachable s \<Longrightarrow> reachable (closeModal s)"
| r_form: "reachable s \<Longrightarrow> reachable (handleFormChange c s)"
| r_save: "reachable s \<Longrightarrow> reachable (saveChanges s)"
| r_drag: "reachable s \<Longrightarrow> reachable (handleDragStart t s)"
| r_drop: "reachable s \<Longrightarrow> reachable (handleDayDrop d s)"
| r_folder_drop: "reachable s \<Longrightarrow> reachable (handleFolderDrop s)"

section \<open>Predicates of the specification\<close>

text \<open>The ids of a list of tasks.\<close>

definition task_ids :: "Task list \<Rightarrow> int set" where
  "task_ids xs = task_id ` set xs"

text \<open>
  The uniqueness predicate of the specification: no id in two buckets, no id twice in
  the folder.
\<close>

definition uniqueness :: "planner \<Rightarrow> bool" where
  "uniqueness s \<longleftrightarrow>
     (\<forall>d \<in> set weekdays. \<forall>d' \<in> set weekdays.
        d \<noteq> d' \<longrightarrow> task_ids (tasks s d) \<inter> task_ids (tasks s d') = {})
     \<and> distinct (map task_id (folder s))"

text \<open>
  The ids of the tasks that exist as movable tasks: those of the buckets, and those of
  a clipboard that waits for a cut-mode paste.
\<close>

definition live_ids :: "planner \<Rightarrow> int set" where
  "live_ids s =
     task_ids (all_tasks (tasks s)) \<union> (if clipboardMode s = Cut then task_ids (clipboard s) else {})"

section \<open>Notions used in the proofs\<close>

text \<open>The \<open>newTasks\<close> component of one round of the \<open>forEach\<close> of \<open>handleDayDrop\<close>.\<close>

definition moved :: "day \<Rightarrow> TasksState \<Rightarrow> Task \<Rightarrow> TasksState" where
  "moved targetDayName newTasks taskToMove = fst (moveOne targetDayName (newTasks, False) taskToMove)"

text \<open>No id twice in a bucket, no id in two buckets.\<close>

definition buckets_unique :: "TasksState \<Rightarrow> bool" where
  "buckets_unique tk \<longleftrightarrow>
     (\<forall>d. distinct (map task_id (tk d)))
     \<and> (\<forall>d d'. d \<noteq> d' \<longrightarrow> task_ids (tk d) \<inter> task_ids (tk d') = {})"

text \<open>
  The invariant that carries the uniqueness through every handler: it also covers the
  selection, the drag payload and a clipboard that waits for a cut-mode paste.
\<close>

definition invariant :: "planner \<Rightarrow> bool" where
  "invariant s \<longleftrightarrow>
     buckets_unique (tasks s)
     \<and> distinct (map task_id (folder s))
     \<and> distinct (map task_id (selectedTasks s))
     \<and> (\<forall>p. draggedTask s = Some p \<longrightarrow> distinct (map task_id (tasksOf p)))
     \<and> (clipboardMode s = Cut \<longrightarrow>
          distinct (map task_id (clipboard s))
          \<and> (\<forall>d. task_ids (clipboard s) \<inter> task_ids (tasks s d) = {}))"

section \<open>Example states\<close>

text \<open>Three tasks of the seed.\<close>

definition t1 :: Task where "t1 = mk 1 ''Reunion d equipe'' ''9h - Point hebdomadaire'' 2"

definition t3 :: Task where "t3 = mk 3 ''Conception UI'' ''Creer les maquettes'' 8"

definition t8 :: Task where "t8 = mk 8 ''Deploiement'' ''Mise en production v1.2'' 8"

text \<open>Task 1 is selected.\<close>

definition cut_example :: planner where
  "cut_example = selectTask t1 False initial"

text \<open>Tasks 1 and 3 are selected.\<close>

definition copy_example :: planner where
  "copy_example = selectTask t3 True (selectTask t1 False initial)"

text \<open>Tasks 1 and 3 are selected and dragged together.\<close>

definition drag_example :: planner where
  "drag_example = handleDragStart t3 (selectTask t3 True (selectTask t1 False initial))"

text \<open>Task 3, not selected, is dragged alone.\<close>

definition single_drag_example :: planner where
  "single_drag_example = handleDragStart t3 initial"

text \<open>The same, with task 1 already in the folder.\<close>

definition folder_example :: planner where
  "folder_example = handleDragStart t3 (selectTask t3 True (selectTask t1 False (initial\<lparr>folder := [t1]\<rparr>)))"

text \<open>
  Task 3 is copied, put in the folder and selected; its title and points are changed in
  the form.
\<close>

definition saved_example :: planner where
  "saved_example =
     handleFormChange (ChangePoints 21)
       (handleFormChange (ChangeTitle ''Conception'')
         (openEditModal t3
           (selectTask t3 False
             (addSelectedTasksToFolder (copySelectedTasks (selectTask t3 False initial))))))"

text \<open>Task 3 is in the folder; its title is changed in the form.\<close>

definition stale_example :: planner where
  "stale_example =
     handleFormChange (ChangeTitle ''Conception'')
       (openEditModal t3 (addSelectedTasksToFolder (selectTask t3 False initial)))"

text \<open>Task 8 is cut, then task 1 is copied.\<close>

definition lost_example :: planner where
  "lost_example =
     copySelectedTasks (selectTask t1 False (cutSelectedTasks (selectTask t8 False initial)))"

text \<open>
  Task 8 is put in the folder and then cut; task 1 is copied, which overwrites the
  clipboard.
\<close>

definition reuse_example :: planner where
  "reuse_example =
     copySelectedTasks (selectTask t1 False (cutSelectedTasks (selectTask t8 False
       (addSelectedTasksToFolder (selectTask t8 False initial)))))"

section \<open>Basic facts\<close>

lemma some_id_iff: "some_id xs i \<longleftrightarrow> i \<in> task_ids xs"
  by (auto simp: some_id_def task_ids_def list_ex_iff)

lemma task_ids_without: "task_ids (without_id xs i) = task_ids xs - {i}"
  by (auto simp: without_id_def task_ids_def)

section \<open>Selection (C9)\<close>

lemma single_ids_iff:
  assumes "distinct (map task_id xs)"
  shows "(length xs = 1 \<and> task_id (hd xs) = i) \<longleftrightarrow> task_ids xs = {i}"
proof
  assume "length xs = 1 \<and> task_id (hd xs) = i"
  then obtain x where "xs = [x]" "task_id x = i"
    by (cases xs) auto
  then show "task_ids xs = {i}" by (simp add: task_ids_def)
next
  assume h: "task_ids xs = {i}"
  have "card (set (map task_id xs)) = length (map task_id xs)"
    using assms by (rule distinct_card)
  moreover have "set (map task_id xs) = {i}"
    using h by (simp add: task_ids_def)
  ultimately have "length xs = 1" by simp
  then obtain x where x: "xs = [x]" by (cases xs) auto
  with h show "length xs = 1 \<and> task_id (hd xs) = i" by (simp add: task_ids_def)
qed

text \<open>
  C9. The selection is a list that stands for a set of ids (no id twice, which holds in
  every reachable state). With the modifier, \<open>selectTask\<close> removes the id of the task
  from the selection when it is there and adds it otherwise, and the other entries stay
  as they are; without the modifier, the selection becomes empty when its ids are exactly
  the id of the task, and the single task otherwise. No other field changes.
\<close>

theorem selectTask_spec:
  assumes "distinct (map task_id (selectedTasks s))"
  shows "task_ids (selectedTasks (selectTask t True s)) =
           (if task_id t \<in> task_ids (selectedTasks s)
            then task_ids (selectedTasks s) - {task_id t}
            else insert (task_id t) (task_ids (selectedTasks s)))
    \<and> filter (\<lambda>x. task_id x \<noteq> task_id t) (selectedTasks (selectTask t True s)) =
           filter (\<lambda>x. task_id x \<noteq> task_id t) (selectedTasks s)
    \<and> selectedTasks (selectTask t False s) =
           (if task_ids (selectedTasks s) = {task_id t} then [] else [t])
    \<and> selectTask t c s = s\<lparr>selectedTasks := selectedTasks (selectTask t c s)\<rparr>"
proof -
  have a: "task_ids (selectedTasks (selectTask t True s)) =
           (if task_id t \<in> task_ids (selectedTasks s)
            then task_ids (selectedTasks s) - {task_id t}
            else insert (task_id t) (task_ids (selectedTasks s)))"
    by (simp add: selectTask_def some_id_iff task_ids_without) (simp add: task_ids_def)
  have b: "filter (\<lambda>x. task_id x \<noteq> task_id t) (selectedTasks (selectTask t True s)) =
           filter (\<lambda>x. task_id x \<noteq> task_id t) (selectedTasks s)"
    by (simp add: selectTask_def without_id_def)
  have c: "selectedTasks (selectTask t False s) =
           (if task_ids (selectedTasks s) = {task_id t} then [] else [t])"
    using single_ids_iff [OF assms, of "task_id t"] by (simp add: selectTask_def)
  have d: "selectTask t c s = s\<lparr>selectedTasks := selectedTasks (selectTask t c s)\<rparr>"
    by (simp add: selectTask_def Let_def)
  from a b c d show ?thesis by blast
qed

theorem selectTask_spec_witness:
  "distinct (map task_id (selectedTasks (selectTask t1 False initial)))
   \<and> selectedTasks (selectTask t1 False (selectTask t1 False initial)) = []
   \<and> task_ids (selectedTasks (selectTask (hd (initialTasks Mardi)) True (selectTask t1 False initial))) = {1, 3}"
  using selectTask_spec [of "selectTask t1 False initial" "hd (initialTasks Mardi)" True]
    selectTask_spec [of "selectTask t1 False initial" t1]
  by (simp add: selectTask_def initial_def t1_def mk_def task_ids_def some_id_def without_id_def insert_commute)

section \<open>Billing folder (C8)\<close>

lemma newTasksForFolder_eq:
  "newTasksForFolder fld xs = filter (\<lambda>t. task_id t \<notin> task_ids fld) xs"
  by (simp add: newTasksForFolder_def some_id_iff)

lemma newTasksForFolder_again:
  "newTasksForFolder (fld @ newTasksForFolder fld xs) xs = []"
  by (auto simp: newTasksForFolder_eq task_ids_def filter_empty_conv)

lemma folder_after_add:
  "selectedTasks s \<noteq> [] \<Longrightarrow>
     addSelectedTasksToFolder s =
       s\<lparr>folder := folder s @ newTasksForFolder (folder s) (selectedTasks s), selectedTasks := []\<rparr>"
  by (simp add: addSelectedTasksToFolder_def Let_def)

lemma folder_after_drop:
  "draggedTask s = Some p \<Longrightarrow>
     handleFolderDrop s =
       s\<lparr>folder := folder s @ newTasksForFolder (folder s) (tasksOf p), draggedTask := None\<rparr>"
  by (simp add: handleFolderDrop_def Let_def)

text \<open>
  C8. With a non-empty selection, \<open>addSelectedTasksToFolder\<close> appends to the folder
  exactly the selected tasks whose id the folder does not hold yet, leaves the buckets as
  they are and empties the selection; run again with the same selection it changes
  nothing more. \<open>handleFolderDrop\<close> appends by the same rule the dragged task \<open>t\<close> of a
  single drag, or the dragged tasks \<open>ts\<close> of a drag of the selection, leaves the buckets
  and the selection as they are and clears the payload.
\<close>

theorem folder_dedup:
  "(selectedTasks s \<noteq> [] \<longrightarrow>
      folder (addSelectedTasksToFolder s) =
        folder s @ filter (\<lambda>t. task_id t \<notin> task_ids (folder s)) (selectedTasks s)
      \<and> selectedTasks (addSelectedTasksToFolder s) = []
      \<and> tasks (addSelectedTasksToFolder s) = tasks s
      \<and> addSelectedTasksToFolder ((addSelectedTasksToFolder s)\<lparr>selectedTasks := selectedTasks s\<rparr>)
          = addSelectedTasksToFolder s)
   \<and> (draggedTask s = Some (SingleTask t) \<longrightarrow>
      folder (handleFolderDrop s) =
        folder s @ filter (\<lambda>x. task_id x \<notin> task_ids (folder s)) [t]
      \<and> tasks (handleFolderDrop s) = tasks s
      \<and> selectedTasks (handleFolderDrop s) = selectedTasks s
      \<and> draggedTask (handleFolderDrop s) = None)
   \<and> (draggedTask s = Some (MultiTasks ts) \<longrightarrow>
      folder (handleFolderDrop s) =
        folder s @ filter (\<lambda>x. task_id x \<notin> task_ids (folder s)) ts
      \<and> tasks (handleFolderDrop s) = tasks s
      \<and> selectedTasks (handleFolderDrop s) = selectedTasks s
      \<and> draggedTask (handleFolderDrop s) = None)"
proof (intro conjI impI)
  assume sel: "selectedTasks s \<noteq> []"
  let ?s1 = "addSelectedTasksToFolder s"
  show "folder ?s1 = folder s @ filter (\<lambda>t. task_id t \<notin> task_ids (folder s)) (selectedTasks s)"
    using sel by (simp add: folder_after_add newTasksForFolder_eq)
  show "selectedTasks ?s1 = []"
    using sel by (simp add: folder_after_add)
  show "tasks ?s1 = tasks s"
    using sel by (simp add: folder_after_add)
  have "selectedTasks (?s1\<lparr>selectedTasks := selectedTasks s\<rparr>) \<noteq> []"
    using sel by simp
  then show "addSelectedTasksToFolder (?s1\<lparr>selectedTasks := selectedTasks s\<rparr>) = ?s1"
    using sel by (simp add: folder_after_add newTasksForFolder_again)
next
  assume p: "draggedTask s = Some (SingleTask t)"
  note eq = folder_after_drop [OF p]
  have one: "tasksOf (SingleTask t) = [t]" by simp
  show "folder (handleFolderDrop s) =
        folder s @ filter (\<lambda>x. task_id x \<notin> task_ids (folder s)) [t]"
    unfolding eq one by (simp add: newTasksForFolder_eq)
  show "tasks (handleFolderDrop s) = tasks s" by (simp add: eq)
  show "selectedTasks (handleFolderDrop s) = selectedTasks s" by (simp add: eq)
  show "draggedTask (handleFolderDrop s) = None" by (simp add: eq)
next
  assume p: "draggedTask s = Some (MultiTasks ts)"
  note eq = folder_after_drop [OF p]
  have many: "tasksOf (MultiTasks ts) = ts" by simp
  show "folder (handleFolderDrop s) =
        folder s @ filter (\<lambda>x. task_id x \<notin> task_ids (folder s)) ts"
    unfolding eq many by (simp add: newTasksForFolder_eq)
  show "tasks (handleFolderDrop s) = tasks s" by (simp add: eq)
  show "selectedTasks (handleFolderDrop s) = selectedTasks s" by (simp add: eq)
  show "draggedTask (handleFolderDrop s) = None" by (simp add: eq)
qed

theorem folder_dedup_witness:
  "selectedTasks folder_example \<noteq> []
   \<and> draggedTask folder_example = Some (MultiTasks [t1, t3])
   \<and> folder (addSelectedTasksToFolder folder_example) = [t1, t3]
   \<and> folder (handleFolderDrop folder_example) = [t1, t3]
   \<and> addSelectedTasksToFolder ((addSelectedTasksToFolder folder_example)\<lparr>selectedTasks := [t1, t3]\<rparr>)
       = addSelectedTasksToFolder folder_example
   \<and> draggedTask single_drag_example = Some (SingleTask t3)
   \<and> folder single_drag_example = []
   \<and> folder (handleFolderDrop single_drag_example) = [t3]
   \<and> folder (handleFolderDrop (handleDragStart t3 (handleFolderDrop single_drag_example))) = [t3]"
proof -
  have sel: "selectedTasks folder_example = [t1, t3]"
    by (simp add: folder_example_def handleDragStart_def selectTask_def initial_def
        some_id_def t1_def t3_def mk_def)
  have drag: "draggedTask folder_example = Some (MultiTasks [t1, t3])"
    by (simp add: folder_example_def handleDragStart_def selectTask_def initial_def
        some_id_def t1_def t3_def mk_def)
  have fld: "folder folder_example = [t1]"
    by (simp add: folder_example_def handleDragStart_def selectTask_def initial_def
        some_id_def t1_def t3_def mk_def)
  have ne: "selectedTasks folder_example \<noteq> []" using sel by simp
  from folder_dedup [of folder_example _ "[t1, t3]"] ne drag
  have multi: "folder (addSelectedTasksToFolder folder_example) = [t1, t3]
     \<and> folder (handleFolderDrop folder_example) = [t1, t3]
     \<and> addSelectedTasksToFolder ((addSelectedTasksToFolder folder_example)\<lparr>selectedTasks := [t1, t3]\<rparr>)
       = addSelectedTasksToFolder folder_example"
    by (simp add: sel fld task_ids_def t1_def t3_def mk_def)
  have sdrag: "draggedTask single_drag_example = Some (SingleTask t3)"
    and sfld: "folder single_drag_example = []"
    by (simp_all add: single_drag_example_def handleDragStart_def initial_def some_id_def Let_def)
  from folder_dedup [of single_drag_example t3] sdrag
  have one: "folder (handleFolderDrop single_drag_example) = [t3]"
    by (simp add: sfld task_ids_def)
  let ?s2 = "handleDragStart t3 (handleFolderDrop single_drag_example)"
  have sdrag2: "draggedTask ?s2 = Some (SingleTask t3)"
    by (simp add: handleDragStart_def Let_def some_id_def handleFolderDrop_def sdrag
        single_drag_example_def initial_def)
  have sfld2: "folder ?s2 = [t3]"
    using one by (simp add: handleDragStart_def Let_def)
  from folder_dedup [of ?s2 t3] sdrag2
  have again: "folder (handleFolderDrop ?s2) = [t3]"
    by (simp add: sfld2 task_ids_def)
  from multi one again ne drag sdrag sfld show ?thesis by simp
qed

section \<open>Editing (C7)\<close>

lemma findIndex_None_iff: "findIndex p xs = None \<longleftrightarrow> \<not> list_ex p xs"
  by (induction xs) auto

lemma findIndex_Some:
  "findIndex p xs = Some k \<Longrightarrow> k < length xs \<and> p (xs ! k) \<and> (\<forall>j<k. \<not> p (xs ! j))"
proof (induction xs arbitrary: k)
  case Nil
  then show ?case by simp
next
  case (Cons x xs)
  show ?case
  proof (cases "p x")
    case True
    with Cons.prems show ?thesis by simp
  next
    case False
    with Cons.prems obtain k' where k': "findIndex p xs = Some k'" "k = Suc k'"
      by auto
    from Cons.IH [OF k'(1)] False k'(2) show ?thesis
      by (auto simp: nth_Cons split: nat.splits)
  qed
qed

lemma saveLoop_find:
  "saveLoop ds i f tk =
     (case find (\<lambda>d. some_id (tk d) i) ds of
        None \<Rightarrow> tk
      | Some d \<Rightarrow>
          (case findIndex (\<lambda>t. task_id t = i) (tk d) of
             Some k \<Rightarrow> tk(d := (tk d)[k := updated f (tk d ! k)])
           | None \<Rightarrow> tk))"
proof (induction ds)
  case Nil
  then show ?case by simp
next
  case (Cons d ds)
  show ?case
  proof (cases "some_id (tk d) i")
    case True
    then obtain k where "findIndex (\<lambda>t. task_id t = i) (tk d) = Some k"
      using findIndex_None_iff [of "\<lambda>t. task_id t = i" "tk d"]
      by (auto simp: some_id_def)
    with True show ?thesis by simp
  next
    case False
    then have "findIndex (\<lambda>t. task_id t = i) (tk d) = None"
      by (simp add: findIndex_None_iff some_id_def)
    with False Cons.IH show ?thesis by simp
  qed
qed

lemma task_id_updated [simp]: "task_id (updated f t) = task_id t"
  by (simp add: updated_def)

lemma content_updated [simp]:
  "title (updated f t) = form_title f"
  "description (updated f t) = form_description f"
  "points (updated f t) = form_points f"
  by (simp_all add: updated_def)

lemma map_task_id_update:
  "map task_id (xs[k := updated f (xs ! k)]) = map task_id xs"
proof (cases "k < length xs")
  case True
  then show ?thesis by (simp add: map_update list_update_same_conv)
next
  case False
  then have "length xs \<le> k" by simp
  then show ?thesis by (simp only: list_update_beyond)
qed

lemma saveLoop_ids: "map task_id (saveLoop ds i f tk d) = map task_id (tk d)"
  by (simp add: saveLoop_find map_task_id_update split: option.splits)

lemma map_task_id_edit:
  "map task_id (map (\<lambda>t. if task_id t = i then updated f t else t) xs) = map task_id xs"
  by (induction xs) auto

lemma filter_other_edit:
  "filter (\<lambda>t. task_id t \<noteq> i) (map (\<lambda>t. if task_id t = i then updated f t else t) xs) =
   filter (\<lambda>t. task_id t \<noteq> i) xs"
  by (induction xs) auto

lemma saveChanges_Some:
  "currentTask s = Some cur \<Longrightarrow>
   saveChanges s =
     s\<lparr>tasks := saveLoop weekdays (task_id cur) (formData s) (tasks s),
       selectedTasks :=
         map (\<lambda>t. if task_id t = task_id cur then updated (formData s) t else t) (selectedTasks s),
       folder :=
         map (\<lambda>t. if task_id t = task_id cur then updated (formData s) t else t) (folder s),
       isModalOpen := False, currentTask := None\<rparr>"
  by (simp add: saveChanges_def closeModal_def)

text \<open>
  C7. With an edit in progress on the task \<open>cur\<close>, \<open>saveChanges\<close> keeps the ids and
  positions of every bucket; the first entry with the id of \<open>cur\<close> in the first bucket
  that holds it gets the title, description and points of the form, and no other bucket
  entry changes; every selection entry and every folder entry with that id gets the same
  three values, the other entries stay as they are; the clipboard and its mode are left
  unchanged.
\<close>

theorem saveChanges_propagates:
  assumes "currentTask s = Some cur"
  shows "(\<forall>d. map task_id (tasks (saveChanges s) d) = map task_id (tasks s d))
    \<and> (\<forall>d. sourceDay (tasks s) (task_id cur) = Some d \<longrightarrow>
          (\<exists>k. findIndex (\<lambda>t. task_id t = task_id cur) (tasks s d) = Some k
             \<and> k < length (tasks s d) \<and> task_id (tasks s d ! k) = task_id cur
             \<and> tasks (saveChanges s) =
                 (tasks s)(d := (tasks s d)[k := updated (formData s) (tasks s d ! k)])
             \<and> title (tasks (saveChanges s) d ! k) = form_title (formData s)
             \<and> description (tasks (saveChanges s) d ! k) = form_description (formData s)
             \<and> points (tasks (saveChanges s) d ! k) = form_points (formData s)))
    \<and> (sourceDay (tasks s) (task_id cur) = None \<longrightarrow> tasks (saveChanges s) = tasks s)
    \<and> (\<forall>t \<in> set (selectedTasks (saveChanges s)) \<union> set (folder (saveChanges s)).
          task_id t = task_id cur \<longrightarrow>
            title t = form_title (formData s)
            \<and> description t = form_description (formData s)
            \<and> points t = form_points (formData s))
    \<and> map task_id (selectedTasks (saveChanges s)) = map task_id (selectedTasks s)
    \<and> map task_id (folder (saveChanges s)) = map task_id (folder s)
    \<and> filter (\<lambda>t. task_id t \<noteq> task_id cur) (selectedTasks (saveChanges s)) =
        filter (\<lambda>t. task_id t \<noteq> task_id cur) (selectedTasks s)
    \<and> filter (\<lambda>t. task_id t \<noteq> task_id cur) (folder (saveChanges s)) =
        filter (\<lambda>t. task_id t \<noteq> task_id cur) (folder s)
    \<and> clipboard (saveChanges s) = clipboard s
    \<and> clipboardMode (saveChanges s) = clipboardMode s"
proof -
  note eq = saveChanges_Some [OF assms]
  let ?i = "task_id cur" and ?f = "formData s"
  have ids: "\<forall>d. map task_id (tasks (saveChanges s) d) = map task_id (tasks s d)"
    by (simp add: eq saveLoop_ids)
  have entry: "\<forall>d. sourceDay (tasks s) ?i = Some d \<longrightarrow>
          (\<exists>k. findIndex (\<lambda>t. task_id t = ?i) (tasks s d) = Some k
             \<and> k < length (tasks s d) \<and> task_id (tasks s d ! k) = ?i
             \<and> tasks (saveChanges s) = (tasks s)(d := (tasks s d)[k := updated ?f (tasks s d ! k)])
             \<and> title (tasks (saveChanges s) d ! k) = form_title ?f
             \<and> description (tasks (saveChanges s) d ! k) = form_description ?f
             \<and> points (tasks (saveChanges s) d ! k) = form_points ?f)"
  proof (intro allI impI)
    fix d
    assume d: "sourceDay (tasks s) ?i = Some d"
    then have "some_id (tasks s d) ?i"
      by (auto simp: sourceDay_def find_Some_iff)
    then obtain k where k: "findIndex (\<lambda>t. task_id t = ?i) (tasks s d) = Some k"
      using findIndex_None_iff [of "\<lambda>t. task_id t = ?i" "tasks s d"]
      by (auto simp: some_id_def)
    from findIndex_Some [OF k] have kl: "k < length (tasks s d)" "task_id (tasks s d ! k) = ?i"
      by auto
    have t: "tasks (saveChanges s) = (tasks s)(d := (tasks s d)[k := updated ?f (tasks s d ! k)])"
      using d k by (simp add: eq saveLoop_find sourceDay_def)
    show "\<exists>k. findIndex (\<lambda>t. task_id t = ?i) (tasks s d) = Some k
             \<and> k < length (tasks s d) \<and> task_id (tasks s d ! k) = ?i
             \<and> tasks (saveChanges s) = (tasks s)(d := (tasks s d)[k := updated ?f (tasks s d ! k)])
             \<and> title (tasks (saveChanges s) d ! k) = form_title ?f
             \<and> description (tasks (saveChanges s) d ! k) = form_description ?f
             \<and> points (tasks (saveChanges s) d ! k) = form_points ?f"
      using k kl t by (intro exI [of _ k]) simp
  qed
  have none: "sourceDay (tasks s) ?i = None \<longrightarrow> tasks (saveChanges s) = tasks s"
    by (simp add: eq saveLoop_find sourceDay_def)
  have content: "\<forall>t \<in> set (selectedTasks (saveChanges s)) \<union> set (folder (saveChanges s)).
          task_id t = ?i \<longrightarrow>
            title t = form_title ?f \<and> description t = form_description ?f
            \<and> points t = form_points ?f"
    by (auto simp: eq)
  have rest: "map task_id (selectedTasks (saveChanges s)) = map task_id (selectedTasks s)"
    "map task_id (folder (saveChanges s)) = map task_id (folder s)"
    "filter (\<lambda>t. task_id t \<noteq> ?i) (selectedTasks (saveChanges s)) =
        filter (\<lambda>t. task_id t \<noteq> ?i) (selectedTasks s)"
    "filter (\<lambda>t. task_id t \<noteq> ?i) (folder (saveChanges s)) =
        filter (\<lambda>t. task_id t \<noteq> ?i) (folder s)"
    "clipboard (saveChanges s) = clipboard s"
    "clipboardMode (saveChanges s) = clipboardMode s"
    by (simp_all add: eq map_task_id_edit filter_other_edit)
  from ids entry none content rest show ?thesis by blast
qed

lemma saved_example_fields:
  "currentTask saved_example = Some t3"
  "formData saved_example = \<lparr>form_title = ''Conception'', form_description = ''Creer les maquettes'', form_points = 21\<rparr>"
  "selectedTasks saved_example = [t3]"
  "folder saved_example = [t3]"
  "clipboard saved_example = [t3]"
  "tasks saved_example = initialTasks"
  by (simp_all add: saved_example_def openEditModal_def addSelectedTasksToFolder_def
      selectTask_def copySelectedTasks_def initial_def newTasksForFolder_def some_id_def
      t3_def mk_def Let_def)

theorem saveChanges_propagates_witness:
  "currentTask saved_example = Some t3
   \<and> tasks (saveChanges saved_example) Mardi =
       [mk 3 ''Conception'' ''Creer les maquettes'' 21, mk 4 ''Revue de code'' ''Revue des PR en attente'' 3]
   \<and> folder (saveChanges saved_example) = [mk 3 ''Conception'' ''Creer les maquettes'' 21]
   \<and> selectedTasks (saveChanges saved_example) = [mk 3 ''Conception'' ''Creer les maquettes'' 21]
   \<and> clipboard (saveChanges saved_example) = [t3]"
proof -
  have src: "sourceDay (tasks saved_example) (task_id t3) = Some Mardi"
    by (simp add: saved_example_fields sourceDay_def weekdays_def some_id_def t3_def mk_def)
  from saveChanges_propagates [OF saved_example_fields(1)] src
  obtain k where k: "findIndex (\<lambda>t. task_id t = task_id t3) (tasks saved_example Mardi) = Some k"
    "tasks (saveChanges saved_example) =
       (tasks saved_example)(Mardi := (tasks saved_example Mardi)[k := updated (formData saved_example) (tasks saved_example Mardi ! k)])"
    by blast
  from k(1) have "k = 0"
    by (simp add: saved_example_fields t3_def mk_def)
  with k(2) have a: "tasks (saveChanges saved_example) Mardi =
       [mk 3 ''Conception'' ''Creer les maquettes'' 21, mk 4 ''Revue de code'' ''Revue des PR en attente'' 3]"
    by (simp add: saved_example_fields updated_def mk_def)
  have b: "folder (saveChanges saved_example) = [mk 3 ''Conception'' ''Creer les maquettes'' 21]"
    by (simp add: saveChanges_def closeModal_def saved_example_fields updated_def t3_def mk_def)
  from saveChanges_propagates [OF saved_example_fields(1)]
  have c: "clipboard (saveChanges saved_example) = clipboard saved_example"
    by blast
  have b': "selectedTasks (saveChanges saved_example) = [mk 3 ''Conception'' ''Creer les maquettes'' 21]"
    by (simp add: saveChanges_def closeModal_def saved_example_fields updated_def t3_def mk_def)
  from a b b' c show ?thesis by (simp add: saved_example_fields)
qed

section \<open>Fresh ids\<close>

lemma set_weekdays: "set weekdays = UNIV"
proof -
  have "d \<in> set weekdays" for d
    by (cases d) (simp_all add: weekdays_def)
  then show ?thesis by blast
qed

lemma distinct_weekdays: "distinct weekdays"
  by (simp add: weekdays_def)

lemma set_all_tasks: "set (all_tasks tk) = (\<Union>d. set (tk d))"
  by (simp add: all_tasks_def set_weekdays)

lemma nextId_Max:
  "all_tasks tk \<noteq> [] \<Longrightarrow> nextId tk = Max (task_ids (all_tasks tk)) + 1"
proof -
  assume ne: "all_tasks tk \<noteq> []"
  then obtain x xs where xs: "map task_id (all_tasks tk) = x # xs"
    by (cases "all_tasks tk") auto
  have "fold max xs x = Max (set (x # xs))"
    by (simp only: Max.set_eq_fold)
  with xs ne show ?thesis
    by (simp add: nextId_def task_ids_def Let_def flip: set_map)
qed

lemma nextId_empty: "all_tasks tk = [] \<Longrightarrow> nextId tk = 1"
  by (simp add: nextId_def)

lemma nextId_greater: "t \<in> set (all_tasks tk) \<Longrightarrow> task_id t < nextId tk"
proof -
  assume t: "t \<in> set (all_tasks tk)"
  then have ne: "all_tasks tk \<noteq> []" by auto
  have "task_id t \<le> Max (task_ids (all_tasks tk))"
    using t by (simp add: task_ids_def)
  with nextId_Max [OF ne] show ?thesis by simp
qed

lemma length_taskCopies [simp]: "length (taskCopies n xs) = length xs"
  by (induction xs arbitrary: n) auto

lemma nth_taskCopies:
  "k < length xs \<Longrightarrow> taskCopies n xs ! k = (xs ! k)\<lparr>task_id := n + int k\<rparr>"
proof (induction xs arbitrary: n k)
  case Nil
  then show ?case by simp
next
  case (Cons x xs)
  show ?case
  proof (cases k)
    case 0
    then show ?thesis by simp
  next
    case (Suc j)
    with Cons.prems have "j < length xs" by simp
    from Cons.IH [OF this, of "n + 1"] Suc show ?thesis by simp
  qed
qed

lemma ids_taskCopies: "map task_id (taskCopies n xs) = map (\<lambda>k. n + int k) [0..<length xs]"
  by (rule nth_equalityI) (simp_all add: nth_taskCopies)

lemma task_ids_taskCopies: "task_ids (taskCopies n xs) = {n ..< n + int (length xs)}"
proof -
  have "task_ids (taskCopies n xs) = set (map task_id (taskCopies n xs))"
    by (simp add: task_ids_def)
  also have "\<dots> = (\<lambda>k. n + int k) ` {0..<length xs}"
    by (simp only: ids_taskCopies set_map set_upt)
  also have "\<dots> = {n ..< n + int (length xs)}"
  proof (rule set_eqI)
    fix i
    show "i \<in> (\<lambda>k. n + int k) ` {0..<length xs} \<longleftrightarrow> i \<in> {n ..< n + int (length xs)}"
    proof
      assume "i \<in> (\<lambda>k. n + int k) ` {0..<length xs}"
      then show "i \<in> {n ..< n + int (length xs)}" by auto
    next
      assume i: "i \<in> {n ..< n + int (length xs)}"
      then have "i = n + int (nat (i - n))" "nat (i - n) < length xs" by auto
      then show "i \<in> (\<lambda>k. n + int k) ` {0..<length xs}"
        by (metis atLeastLessThan_iff imageI le0)
    qed
  qed
  finally show ?thesis .
qed

lemma distinct_ids_taskCopies: "distinct (map task_id (taskCopies n xs))"
  by (simp add: ids_taskCopies distinct_map inj_on_def)

lemma set_all_tasks_upd: "set (all_tasks (tk(d := tk d @ xs))) = set (all_tasks tk) \<union> set xs"
  by (auto simp: set_all_tasks split: if_splits)

lemma nextId_after_copies:
  assumes "xs \<noteq> []"
  shows "nextId (tk(d := tk d @ taskCopies (nextId tk) xs)) = nextId tk + int (length xs)"
proof -
  let ?n = "nextId tk" and ?tk' = "tk(d := tk d @ taskCopies (nextId tk) xs)"
  let ?top = "?n + int (length xs) - 1"
  have ids: "task_ids (all_tasks ?tk') = task_ids (all_tasks tk) \<union> {?n ..< ?n + int (length xs)}"
    using task_ids_taskCopies [of ?n xs]
    by (simp add: task_ids_def set_all_tasks_upd image_Un)
  have len: "0 < length xs" using assms by simp
  then have ne: "all_tasks ?tk' \<noteq> []"
    using ids by (auto simp: task_ids_def)
  have "Max (task_ids (all_tasks ?tk')) = ?top"
  proof (rule Max_eqI)
    show "finite (task_ids (all_tasks ?tk'))" by (simp add: task_ids_def)
    show "?top \<in> task_ids (all_tasks ?tk')" using len by (simp add: ids)
    fix y
    assume "y \<in> task_ids (all_tasks ?tk')"
    then consider "y \<in> task_ids (all_tasks tk)" | "y \<in> {?n ..< ?n + int (length xs)}"
      by (auto simp: ids)
    then show "y \<le> ?top"
    proof cases
      case 1
      then have "y < ?n" by (auto simp: task_ids_def dest: nextId_greater)
      then show ?thesis by simp
    next
      case 2
      then show ?thesis by simp
    qed
  qed
  with nextId_Max [OF ne] show ?thesis by simp
qed

section \<open>Copy and paste\<close>

lemma paste_copy_mode:
  "clipboard s \<noteq> [] \<Longrightarrow> clipboardMode s = Copy \<Longrightarrow>
   pasteTasksToDay d s =
     s\<lparr>tasks := (tasks s)(d := tasks s d @ taskCopies (nextId (tasks s)) (clipboard s))\<rparr>"
  by (simp add: pasteTasksToDay_def)

lemma copy_nonempty:
  "selectedTasks s \<noteq> [] \<Longrightarrow>
   copySelectedTasks s = s\<lparr>clipboard := selectedTasks s, clipboardMode := Copy\<rparr>"
  by (simp add: copySelectedTasks_def Let_def)

lemma paste_copy_facts:
  assumes "clipboard s \<noteq> []" "clipboardMode s = Copy"
  shows "clipboard (pasteTasksToDay d s) = clipboard s"
    and "clipboardMode (pasteTasksToDay d s) = Copy"
    and "nextId (tasks (pasteTasksToDay d s)) = nextId (tasks s) + int (length (clipboard s))"
    and "tasks (pasteTasksToDay d s) d = tasks s d @ taskCopies (nextId (tasks s)) (clipboard s)"
    and "d' \<noteq> d \<Longrightarrow> tasks (pasteTasksToDay d s) d' = tasks s d'"
  using assms by (simp_all add: paste_copy_mode nextId_after_copies)

lemma paste_copy_twice:
  assumes "clipboard s \<noteq> []" "clipboardMode s = Copy"
  shows "tasks (pasteTasksToDay d (pasteTasksToDay d s)) d =
           tasks s d @ taskCopies (nextId (tasks s)) (clipboard s)
             @ taskCopies (nextId (tasks s) + int (length (clipboard s))) (clipboard s)"
    and "d' \<noteq> d \<Longrightarrow> tasks (pasteTasksToDay d (pasteTasksToDay d s)) d' = tasks s d'"
    and "clipboard (pasteTasksToDay d (pasteTasksToDay d s)) = clipboard s"
    and "clipboardMode (pasteTasksToDay d (pasteTasksToDay d s)) = Copy"
    and "nextId (tasks (pasteTasksToDay d (pasteTasksToDay d s))) =
           nextId (tasks s) + 2 * int (length (clipboard s))"
  using assms by (simp_all add: paste_copy_facts)

lemma paste_copy_thrice:
  assumes "clipboard s \<noteq> []" "clipboardMode s = Copy"
  shows "tasks (pasteTasksToDay d (pasteTasksToDay d (pasteTasksToDay d s))) d =
     tasks (pasteTasksToDay d (pasteTasksToDay d s)) d
       @ taskCopies (nextId (tasks s) + 2 * int (length (clipboard s))) (clipboard s)"
  using assms by (simp add: paste_copy_facts add.commute)

text \<open>
  Copy and paste on every state (what holds of the duplication law, whatever the folder
  holds). With a non-empty selection \<open>sel\<close>, \<open>copySelectedTasks\<close> followed by two
  \<open>pasteTasksToDay B\<close> appends to bucket \<open>B\<close> two runs of duplicates, one duplicate per
  selected task in each run: the duplicate at position \<open>k\<close> has the title, description
  and points of \<open>sel ! k\<close>, and the ids \<open>n + k\<close> and \<open>n + length sel + k\<close>, where \<open>n\<close> is
  greater than every id of every bucket before the paste, so all new ids are pairwise
  distinct and differ from every id of the buckets. Every bucket entry of the start
  state stays where it was. The clipboard still holds \<open>sel\<close> in mode copy, and a third
  paste appends a further run.
\<close>

theorem copy_paste_twice:
  assumes "selectedTasks s \<noteq> []"
  shows "\<exists>dup1 dup2 dup3.
      tasks (pasteTasksToDay B (pasteTasksToDay B (copySelectedTasks s))) B
        = tasks s B @ dup1 @ dup2
    \<and> length dup1 = length (selectedTasks s) \<and> length dup2 = length (selectedTasks s)
    \<and> (\<forall>k < length (selectedTasks s).
          title (dup1 ! k) = title (selectedTasks s ! k)
        \<and> description (dup1 ! k) = description (selectedTasks s ! k)
        \<and> points (dup1 ! k) = points (selectedTasks s ! k)
        \<and> title (dup2 ! k) = title (selectedTasks s ! k)
        \<and> description (dup2 ! k) = description (selectedTasks s ! k)
        \<and> points (dup2 ! k) = points (selectedTasks s ! k)
        \<and> task_id (dup1 ! k) = nextId (tasks s) + int k
        \<and> task_id (dup2 ! k) = nextId (tasks s) + int (length (selectedTasks s)) + int k)
    \<and> distinct (map task_id (dup1 @ dup2))
    \<and> (\<forall>t \<in> set (all_tasks (tasks s)). task_id t < nextId (tasks s))
    \<and> (\<forall>d. d \<noteq> B \<longrightarrow>
          tasks (pasteTasksToDay B (pasteTasksToDay B (copySelectedTasks s))) d = tasks s d)
    \<and> clipboard (pasteTasksToDay B (pasteTasksToDay B (copySelectedTasks s))) = selectedTasks s
    \<and> clipboardMode (pasteTasksToDay B (pasteTasksToDay B (copySelectedTasks s))) = Copy
    \<and> tasks (pasteTasksToDay B (pasteTasksToDay B (pasteTasksToDay B (copySelectedTasks s)))) B
        = tasks s B @ dup1 @ dup2 @ dup3
    \<and> length dup3 = length (selectedTasks s)
    \<and> (\<forall>k < length (selectedTasks s).
          task_id (dup3 ! k) = nextId (tasks s) + 2 * int (length (selectedTasks s)) + int k)"
proof -
  let ?sel = "selectedTasks s" and ?n = "nextId (tasks s)"
  let ?m = "int (length (selectedTasks s))"
  let ?c = "copySelectedTasks s"
  let ?d1 = "taskCopies ?n ?sel" and ?d2 = "taskCopies (?n + ?m) ?sel"
  let ?d3 = "taskCopies (?n + 2 * ?m) ?sel"
  have c: "clipboard ?c = ?sel" "clipboardMode ?c = Copy" "tasks ?c = tasks s"
    using assms by (simp_all add: copy_nonempty)
  have cne: "clipboard ?c \<noteq> []" using assms c by simp
  note two = paste_copy_twice [OF cne c(2), of B]
  note three = paste_copy_thrice [OF cne c(2), of B]
  have a1: "tasks (pasteTasksToDay B (pasteTasksToDay B ?c)) B = tasks s B @ ?d1 @ ?d2"
    by (simp add: two c)
  have a2: "length ?d1 = length ?sel" "length ?d2 = length ?sel" "length ?d3 = length ?sel"
    by simp_all
  have a3: "\<forall>k < length ?sel.
          title (?d1 ! k) = title (?sel ! k)
        \<and> description (?d1 ! k) = description (?sel ! k)
        \<and> points (?d1 ! k) = points (?sel ! k)
        \<and> title (?d2 ! k) = title (?sel ! k)
        \<and> description (?d2 ! k) = description (?sel ! k)
        \<and> points (?d2 ! k) = points (?sel ! k)
        \<and> task_id (?d1 ! k) = ?n + int k
        \<and> task_id (?d2 ! k) = ?n + ?m + int k"
    by (simp add: nth_taskCopies)
  have a4: "distinct (map task_id (?d1 @ ?d2))"
    using task_ids_taskCopies [of ?n ?sel] task_ids_taskCopies [of "?n + ?m" ?sel]
    by (auto simp: distinct_ids_taskCopies task_ids_def)
  have a5: "\<forall>t \<in> set (all_tasks (tasks s)). task_id t < ?n"
    by (simp add: nextId_greater)
  have a6: "\<forall>d. d \<noteq> B \<longrightarrow> tasks (pasteTasksToDay B (pasteTasksToDay B ?c)) d = tasks s d"
    by (simp add: paste_copy_twice [OF cne c(2)] c)
  have a7: "clipboard (pasteTasksToDay B (pasteTasksToDay B ?c)) = ?sel"
    "clipboardMode (pasteTasksToDay B (pasteTasksToDay B ?c)) = Copy"
    by (simp_all add: two c)
  have a8: "tasks (pasteTasksToDay B (pasteTasksToDay B (pasteTasksToDay B ?c))) B
        = tasks s B @ ?d1 @ ?d2 @ ?d3"
    using three by (simp add: a1 c)
  have a9: "\<forall>k < length ?sel. task_id (?d3 ! k) = ?n + 2 * ?m + int k"
    by (simp add: nth_taskCopies)
  from a1 a2 a3 a4 a5 a6 a7 a8 a9 show ?thesis
    by (intro exI [of _ ?d1] exI [of _ ?d2] exI [of _ ?d3]) blast
qed

lemma copy_example_fields:
  "selectedTasks copy_example = [t1, t3]"
  "tasks copy_example = initialTasks"
  by (simp_all add: copy_example_def selectTask_def initial_def some_id_def t1_def t3_def mk_def)

lemma nextId_initial: "nextId initialTasks = 9"
  by (simp add: nextId_def all_tasks_def weekdays_def mk_def)

theorem copy_paste_twice_witness:
  "selectedTasks copy_example \<noteq> []
   \<and> tasks (pasteTasksToDay Samedi (pasteTasksToDay Samedi (copySelectedTasks copy_example))) Samedi
       = [t1\<lparr>task_id := 9\<rparr>, t3\<lparr>task_id := 10\<rparr>, t1\<lparr>task_id := 11\<rparr>, t3\<lparr>task_id := 12\<rparr>]
   \<and> tasks (pasteTasksToDay Samedi (pasteTasksToDay Samedi (copySelectedTasks copy_example))) Lundi
       = initialTasks Lundi"
proof -
  have ne: "selectedTasks copy_example \<noteq> []"
    by (simp add: copy_example_fields)
  let ?r = "tasks (pasteTasksToDay Samedi (pasteTasksToDay Samedi (copySelectedTasks copy_example)))"
  from copy_paste_twice [OF ne, of Samedi]
  obtain dup1 dup2 where d:
    "?r Samedi = tasks copy_example Samedi @ dup1 @ dup2"
    "length dup1 = length (selectedTasks copy_example)"
    "length dup2 = length (selectedTasks copy_example)"
    "\<forall>d. d \<noteq> Samedi \<longrightarrow> ?r d = tasks copy_example d"
    by blast
  have "?r Samedi = [t1\<lparr>task_id := 9\<rparr>, t3\<lparr>task_id := 10\<rparr>, t1\<lparr>task_id := 11\<rparr>, t3\<lparr>task_id := 12\<rparr>]"
    by (simp add: copy_nonempty [OF ne] paste_copy_twice copy_example_fields nextId_initial)
  moreover from d(4) have "?r Lundi = initialTasks Lundi"
    by (simp add: copy_example_fields)
  ultimately show ?thesis using ne by simp
qed

section \<open>Cut and paste (C2)\<close>

lemma sourceDay_cong:
  "(\<And>d. some_id (tk' d) i = some_id (tk d) i) \<Longrightarrow> sourceDay tk' i = sourceDay tk i"
  by (simp add: sourceDay_def)

lemma sourceDay_SomeD: "sourceDay tk i = Some d \<Longrightarrow> i \<in> task_ids (tk d)"
  by (auto simp: sourceDay_def find_Some_iff some_id_iff)

lemma sourceDay_None_iff: "sourceDay tk i = None \<longleftrightarrow> (\<forall>d. i \<notin> task_ids (tk d))"
  by (simp add: sourceDay_def find_None_iff set_weekdays some_id_iff)

lemma cutOne_cases:
  "cutOne tk t d = tk d \<or>
   (sourceDay tk (task_id t) = Some d \<and> cutOne tk t d = without_id (tk d) (task_id t))"
  by (simp add: cutOne_def split: option.splits)

lemma cutOne_other_id:
  "i \<noteq> task_id t \<Longrightarrow> some_id (cutOne tk t d) i = some_id (tk d) i"
  using cutOne_cases [of tk t d] by (auto simp: some_id_iff task_ids_without)

lemma cutOne_ids_subset: "task_ids (cutOne tk t d) \<subseteq> task_ids (tk d)"
  using cutOne_cases [of tk t d] by (auto simp: task_ids_without)

lemma cut_ids_subset: "task_ids (foldl cutOne tk sel d) \<subseteq> task_ids (tk d)"
proof (induction sel arbitrary: tk)
  case Nil
  then show ?case by simp
next
  case (Cons h sel)
  have "task_ids (foldl cutOne (cutOne tk h) sel d) \<subseteq> task_ids (cutOne tk h d)"
    by (rule Cons.IH)
  with cutOne_ids_subset [of tk h d] show ?case by auto
qed

lemma cutOne_source_removed:
  "sourceDay tk (task_id t) = Some d \<Longrightarrow> task_id t \<notin> task_ids (cutOne tk t d)"
  by (simp add: cutOne_def task_ids_without)

lemma cut_source_removed:
  "i \<in> task_ids sel \<Longrightarrow> sourceDay tk i = Some d \<Longrightarrow> i \<notin> task_ids (foldl cutOne tk sel d)"
proof (induction sel arbitrary: tk)
  case Nil
  then show ?case by (simp add: task_ids_def)
next
  case (Cons h sel)
  show ?case
  proof (cases "task_id h = i")
    case True
    with Cons.prems(2) have "i \<notin> task_ids (cutOne tk h d)"
      using cutOne_source_removed [of tk h d] by simp
    with cut_ids_subset [of "cutOne tk h" sel d] show ?thesis by auto
  next
    case False
    with Cons.prems(1) have in_rest: "i \<in> task_ids sel" by (auto simp: task_ids_def)
    have "sourceDay (cutOne tk h) i = sourceDay tk i"
      using False by (intro sourceDay_cong cutOne_other_id) simp
    with Cons.prems(2) have "sourceDay (cutOne tk h) i = Some d" by simp
    from Cons.IH [OF in_rest this] show ?thesis by simp
  qed
qed

lemma cut_nonempty:
  "selectedTasks s \<noteq> [] \<Longrightarrow>
   cutSelectedTasks s =
     s\<lparr>clipboard := selectedTasks s, clipboardMode := Cut,
       tasks := foldl cutOne (tasks s) (selectedTasks s), selectedTasks := []\<rparr>"
  by (simp add: cutSelectedTasks_def)

lemma paste_cut_mode:
  "clipboard s \<noteq> [] \<Longrightarrow> clipboardMode s = Cut \<Longrightarrow>
   pasteTasksToDay d s =
     s\<lparr>tasks := (tasks s)(d := tasks s d @ clipboard s), clipboard := [], clipboardMode := Copy\<rparr>"
  by (simp add: pasteTasksToDay_def)

lemma paste_empty: "clipboard s = [] \<Longrightarrow> pasteTasksToDay d s = s"
  by (simp add: pasteTasksToDay_def)

lemma cut_then_paste:
  "selectedTasks s \<noteq> [] \<Longrightarrow>
   pasteTasksToDay B (cutSelectedTasks s) =
     s\<lparr>clipboard := [], clipboardMode := Copy,
       tasks := (foldl cutOne (tasks s) (selectedTasks s))
                  (B := foldl cutOne (tasks s) (selectedTasks s) B @ selectedTasks s),
       selectedTasks := []\<rparr>"
  by (simp add: cut_nonempty paste_cut_mode)

lemma cut_filter:
  "\<exists>R. R \<subseteq> task_ids sel \<and> foldl cutOne tk sel d = filter (\<lambda>x. task_id x \<notin> R) (tk d)"
proof (induction sel arbitrary: tk)
  case Nil
  then show ?case by (intro exI [of _ "{}"]) simp
next
  case (Cons t sel)
  let ?tk' = "cutOne tk t"
  from Cons.IH [of ?tk'] obtain R where R:
    "R \<subseteq> task_ids sel" "foldl cutOne ?tk' sel d = filter (\<lambda>x. task_id x \<notin> R) (?tk' d)"
    by blast
  from cutOne_cases [of tk t d] show ?case
  proof
    assume "?tk' d = tk d"
    with R show ?thesis by (intro exI [of _ R]) (auto simp: task_ids_def)
  next
    assume "sourceDay tk (task_id t) = Some d \<and> ?tk' d = without_id (tk d) (task_id t)"
    then have "?tk' d = filter (\<lambda>x. task_id x \<noteq> task_id t) (tk d)"
      by (simp add: without_id_def)
    with R have "foldl cutOne ?tk' sel d = filter (\<lambda>x. task_id x \<notin> insert (task_id t) R) (tk d)"
      by (simp add: conj_commute)
    with R(1) show ?thesis
      by (intro exI [of _ "insert (task_id t) R"]) (auto simp: task_ids_def)
  qed
qed

text \<open>
  C2, as the code has it. With a non-empty selection, \<open>cutSelectedTasks\<close> puts the
  selected tasks in the clipboard in mode cut and takes out of every bucket only entries
  with selected ids; \<open>pasteTasksToDay B\<close> then appends the selected tasks, as they are, to
  the end of what the cut left of bucket \<open>B\<close> and leaves the other buckets as the cut left
  them. The id of a selected task is absent from the bucket that held it before the cut
  whenever that bucket is not \<open>B\<close>. The clipboard is empty, its mode is copy, and a
  further paste into any bucket changes nothing.
\<close>

theorem cut_paste_moves:
  assumes "selectedTasks s \<noteq> []"
  shows "clipboard (cutSelectedTasks s) = selectedTasks s
    \<and> clipboardMode (cutSelectedTasks s) = Cut
    \<and> (\<forall>d. \<exists>R. R \<subseteq> task_ids (selectedTasks s)
          \<and> tasks (cutSelectedTasks s) d = filter (\<lambda>x. task_id x \<notin> R) (tasks s d))
    \<and> tasks (pasteTasksToDay B (cutSelectedTasks s)) B =
        tasks (cutSelectedTasks s) B @ selectedTasks s
    \<and> (\<forall>d. d \<noteq> B \<longrightarrow>
          tasks (pasteTasksToDay B (cutSelectedTasks s)) d = tasks (cutSelectedTasks s) d)
    \<and> (\<forall>t \<in> set (selectedTasks s). t \<in> set (tasks (pasteTasksToDay B (cutSelectedTasks s)) B))
    \<and> (\<forall>t \<in> set (selectedTasks s). \<forall>d.
          sourceDay (tasks s) (task_id t) = Some d \<and> d \<noteq> B \<longrightarrow>
            task_id t \<notin> task_ids (tasks (pasteTasksToDay B (cutSelectedTasks s)) d))
    \<and> clipboard (pasteTasksToDay B (cutSelectedTasks s)) = []
    \<and> clipboardMode (pasteTasksToDay B (cutSelectedTasks s)) = Copy
    \<and> folder (pasteTasksToDay B (cutSelectedTasks s)) = folder s
    \<and> pasteTasksToDay B' (pasteTasksToDay B (cutSelectedTasks s)) =
        pasteTasksToDay B (cutSelectedTasks s)"
proof -
  let ?c = "cutSelectedTasks s"
  let ?r = "pasteTasksToDay B ?c"
  note ceq = cut_nonempty [OF assms]
  note eq = cut_then_paste [OF assms, of B]
  have c1: "clipboard ?c = selectedTasks s" "clipboardMode ?c = Cut"
    by (simp_all add: ceq)
  have ct: "tasks ?c = foldl cutOne (tasks s) (selectedTasks s)"
    by (simp add: ceq)
  have c2: "\<forall>d. \<exists>R. R \<subseteq> task_ids (selectedTasks s)
          \<and> tasks ?c d = filter (\<lambda>x. task_id x \<notin> R) (tasks s d)"
    unfolding ct by (intro allI cut_filter)
  have a: "tasks ?r B = tasks ?c B @ selectedTasks s"
    by (simp add: eq ct)
  have a0: "\<forall>d. d \<noteq> B \<longrightarrow> tasks ?r d = tasks ?c d"
    by (simp add: eq ct)
  from a have a2: "\<forall>t \<in> set (selectedTasks s). t \<in> set (tasks ?r B)" by simp
  have a3: "\<forall>t \<in> set (selectedTasks s). \<forall>d.
          sourceDay (tasks s) (task_id t) = Some d \<and> d \<noteq> B \<longrightarrow>
            task_id t \<notin> task_ids (tasks ?r d)"
  proof (intro ballI allI impI)
    fix t d
    assume t: "t \<in> set (selectedTasks s)"
      and d: "sourceDay (tasks s) (task_id t) = Some d \<and> d \<noteq> B"
    from t have "task_id t \<in> task_ids (selectedTasks s)" by (simp add: task_ids_def)
    with d have "task_id t \<notin> task_ids (foldl cutOne (tasks s) (selectedTasks s) d)"
      by (simp add: cut_source_removed)
    with d show "task_id t \<notin> task_ids (tasks ?r d)" by (simp add: eq)
  qed
  have a4: "clipboard ?r = []" "clipboardMode ?r = Copy" "folder ?r = folder s"
    by (simp_all add: eq)
  then have a5: "pasteTasksToDay B' ?r = ?r" by (simp add: paste_empty)
  show ?thesis by (intro conjI c1 c2 a a0 a2 a3 a4 a5)
qed

lemma cut_example_fields:
  "selectedTasks cut_example = [t1]"
  "tasks cut_example = initialTasks"
  by (simp_all add: cut_example_def selectTask_def initial_def)

lemma cut_example_source: "sourceDay (tasks cut_example) (task_id t1) = Some Lundi"
  by (simp add: cut_example_fields sourceDay_def weekdays_def some_id_def t1_def mk_def)

theorem cut_paste_moves_witness:
  "selectedTasks cut_example \<noteq> []
   \<and> t1 \<in> set (selectedTasks cut_example)
   \<and> sourceDay (tasks cut_example) (task_id t1) = Some Lundi
   \<and> t1 \<in> set (tasks (pasteTasksToDay Mardi (cutSelectedTasks cut_example)) Mardi)
   \<and> task_id t1 \<notin> task_ids (tasks (pasteTasksToDay Mardi (cutSelectedTasks cut_example)) Lundi)
   \<and> tasks (pasteTasksToDay Mardi (cutSelectedTasks cut_example)) Mardi = initialTasks Mardi @ [t1]
   \<and> clipboard (pasteTasksToDay Mardi (cutSelectedTasks cut_example)) = []"
proof -
  have ne: "selectedTasks cut_example \<noteq> []" and mem: "t1 \<in> set (selectedTasks cut_example)"
    by (simp_all add: cut_example_fields)
  note inst = cut_paste_moves [OF ne, of Mardi]
  note rest = inst [THEN conjunct2, THEN conjunct2]
  note cut_buckets = rest [THEN conjunct1]
  note pasted = rest [THEN conjunct2, THEN conjunct1]
  note rest' = rest [THEN conjunct2, THEN conjunct2, THEN conjunct2]
  note present = rest' [THEN conjunct1]
  note absent = rest' [THEN conjunct2, THEN conjunct1]
  note emptied = rest' [THEN conjunct2, THEN conjunct2, THEN conjunct1]
  from cut_buckets obtain R where R: "R \<subseteq> task_ids (selectedTasks cut_example)"
    "tasks (cutSelectedTasks cut_example) Mardi = filter (\<lambda>x. task_id x \<notin> R) (tasks cut_example Mardi)"
    by blast
  from R(1) have "R \<subseteq> {1}" by (simp add: cut_example_fields t1_def mk_def task_ids_def)
  then have "3 \<notin> R" "4 \<notin> R" by auto
  then have "filter (\<lambda>x. task_id x \<notin> R) (initialTasks Mardi) = initialTasks Mardi"
    by (simp add: mk_def)
  with R(2) have "tasks (cutSelectedTasks cut_example) Mardi = initialTasks Mardi"
    by (simp add: cut_example_fields)
  with pasted have b: "tasks (pasteTasksToDay Mardi (cutSelectedTasks cut_example)) Mardi
      = initialTasks Mardi @ [t1]"
    by (simp add: cut_example_fields)
  from present mem
  have p: "t1 \<in> set (tasks (pasteTasksToDay Mardi (cutSelectedTasks cut_example)) Mardi)"
    by blast
  from absent mem cut_example_source
  have a: "task_id t1 \<notin> task_ids (tasks (pasteTasksToDay Mardi (cutSelectedTasks cut_example)) Lundi)"
    by blast
  from ne mem cut_example_source p a b emptied show ?thesis by (intro conjI)
qed

text \<open>
  C2, as the specification words it, fails when \<open>B\<close> is the bucket the task was cut
  from: the task is appended to \<open>B\<close> again, so it is not absent from its original
  bucket.
\<close>

theorem cut_paste_same_bucket_counterexample:
  "\<not> (\<forall>s B. selectedTasks s \<noteq> [] \<longrightarrow>
        (\<forall>t \<in> set (selectedTasks s). \<forall>d. sourceDay (tasks s) (task_id t) = Some d \<longrightarrow>
           task_id t \<notin> task_ids (tasks (pasteTasksToDay B (cutSelectedTasks s)) d)))"
proof
  assume h: "\<forall>s B. selectedTasks s \<noteq> [] \<longrightarrow>
        (\<forall>t \<in> set (selectedTasks s). \<forall>d. sourceDay (tasks s) (task_id t) = Some d \<longrightarrow>
           task_id t \<notin> task_ids (tasks (pasteTasksToDay B (cutSelectedTasks s)) d))"
  have ne: "selectedTasks cut_example \<noteq> []" and mem: "t1 \<in> set (selectedTasks cut_example)"
    by (simp_all add: cut_example_fields)
  from h ne mem cut_example_source
  have "task_id t1 \<notin> task_ids (tasks (pasteTasksToDay Lundi (cutSelectedTasks cut_example)) Lundi)"
    by blast
  moreover have "tasks (pasteTasksToDay Lundi (cutSelectedTasks cut_example)) Lundi
      = [mk 2 ''Analyse des besoins'' ''Recueillir les besoins client'' 5, t1]"
    by (simp add: cut_then_paste [OF ne] cut_example_fields cutOne_def sourceDay_def
        weekdays_def some_id_def without_id_def t1_def mk_def)
  ultimately show False by (simp add: task_ids_def)
qed

section \<open>Dropping on a day\<close>

lemma task_ids_simps [simp]:
  "task_ids [] = {}"
  "task_ids (x # xs) = insert (task_id x) (task_ids xs)"
  "task_ids (xs @ ys) = task_ids xs \<union> task_ids ys"
  by (auto simp: task_ids_def)

lemma moved_eq:
  "moved B tk t =
     (case sourceDay tk (task_id t) of
        None \<Rightarrow> tk
      | Some src \<Rightarrow>
          if src = B then tk
          else (tk(src := without_id (tk src) (task_id t)))
                 (B := if task_id t \<in> task_ids (tk B) then tk B else tk B @ [t]))"
  by (auto simp: moved_def moveOne_def Let_def some_id_iff split: option.splits)

lemma fst_moveOne: "fst (moveOne B (tk, ch) t) = moved B tk t"
  by (simp add: moved_def moveOne_def Let_def split: option.splits)

lemma snd_moveOne_False:
  "\<not> snd (moveOne B (tk, ch) t) \<Longrightarrow> \<not> ch \<and> moved B tk t = tk"
  by (auto simp: moved_def moveOne_def Let_def split: option.splits if_splits)

lemma snd_moveOne_True: "snd (moveOne B (tk, True) t)"
  by (simp add: moveOne_def Let_def split: option.splits)

lemma fst_foldl_moveOne: "fst (foldl (moveOne B) (tk, ch) ts) = foldl (moved B) tk ts"
proof (induction ts arbitrary: tk ch)
  case Nil
  then show ?case by simp
next
  case (Cons t ts)
  obtain tk' ch' where m: "moveOne B (tk, ch) t = (tk', ch')"
    by (cases "moveOne B (tk, ch) t")
  then have "tk' = moved B tk t"
    using fst_moveOne [of B tk ch t] by simp
  with m Cons.IH [of tk' ch'] show ?case by simp
qed

lemma snd_foldl_moveOne_True: "snd (foldl (moveOne B) (tk, True) ts)"
proof (induction ts arbitrary: tk)
  case Nil
  then show ?case by simp
next
  case (Cons t ts)
  obtain tk' where "moveOne B (tk, True) t = (tk', True)"
    using snd_moveOne_True [of B tk t] by (cases "moveOne B (tk, True) t") auto
  with Cons.IH [of tk'] show ?case by simp
qed

lemma snd_foldl_moveOne_False:
  "\<not> snd (foldl (moveOne B) (tk, ch) ts) \<Longrightarrow> foldl (moved B) tk ts = tk"
proof (induction ts arbitrary: tk ch)
  case Nil
  then show ?case by simp
next
  case (Cons t ts)
  obtain tk' ch' where m: "moveOne B (tk, ch) t = (tk', ch')"
    by (cases "moveOne B (tk, ch) t")
  have tk': "tk' = moved B tk t"
    using fst_moveOne [of B tk ch t] m by simp
  from Cons.prems m have nf: "\<not> snd (foldl (moveOne B) (tk', ch') ts)" by simp
  have "\<not> ch'"
  proof
    assume "ch'"
    with snd_foldl_moveOne_True [of B tk' ts] nf show False by simp
  qed
  with m snd_moveOne_False [of B tk ch t] have same: "moved B tk t = tk" by simp
  from Cons.IH [OF nf] tk' same show ?case by simp
qed

lemma handleDayDrop_eq:
  assumes "draggedTask s = Some p"
  shows "handleDayDrop B s =
           s\<lparr>tasks := foldl (moved B) (tasks s) (tasksOf p), draggedTask := None\<rparr>"
proof -
  obtain tk' ch' where f: "foldl (moveOne B) (tasks s, False) (tasksOf p) = (tk', ch')"
    by (cases "foldl (moveOne B) (tasks s, False) (tasksOf p)")
  have tk': "tk' = foldl (moved B) (tasks s) (tasksOf p)"
    using fst_foldl_moveOne [of B "tasks s" False "tasksOf p"] f by simp
  have "(if ch' then tk' else tasks s) = foldl (moved B) (tasks s) (tasksOf p)"
  proof (cases ch')
    case True
    with tk' show ?thesis by simp
  next
    case False
    with f snd_foldl_moveOne_False [of B "tasks s" False "tasksOf p"] show ?thesis by simp
  qed
  with assms f show ?thesis by (simp add: handleDayDrop_def)
qed

lemma moved_other_id:
  "i \<noteq> task_id t \<Longrightarrow> some_id (moved B tk t d) i = some_id (tk d) i"
  by (auto simp: moved_eq some_id_iff task_ids_without split: option.splits)

lemma moved_nontarget:
  "d \<noteq> B \<Longrightarrow> moved B tk t d = tk d \<or>
     (sourceDay tk (task_id t) = Some d \<and> moved B tk t d = without_id (tk d) (task_id t))"
  by (auto simp: moved_eq split: option.splits)

lemma moved_target:
  "moved B tk t B = tk B \<or>
     (task_id t \<notin> task_ids (tk B) \<and> moved B tk t B = tk B @ [t]
       \<and> (\<exists>d. d \<noteq> B \<and> sourceDay tk (task_id t) = Some d))"
  by (auto simp: moved_eq split: option.splits)

lemma moved_unowned:
  "sourceDay tk (task_id t) = None \<or> sourceDay tk (task_id t) = Some B \<Longrightarrow> moved B tk t = tk"
  by (auto simp: moved_eq)

lemma moved_source:
  "sourceDay tk (task_id t) = Some d \<Longrightarrow> d \<noteq> B \<Longrightarrow>
     task_id t \<notin> task_ids (moved B tk t d) \<and> task_id t \<in> task_ids (moved B tk t B)"
  by (auto simp: moved_eq task_ids_without)

lemma drop_nontarget_subset:
  "d \<noteq> B \<Longrightarrow> task_ids (foldl (moved B) tk ts d) \<subseteq> task_ids (tk d)"
proof (induction ts arbitrary: tk)
  case Nil
  then show ?case by simp
next
  case (Cons t ts)
  from Cons.prems moved_nontarget [of d B tk t]
  have "task_ids (moved B tk t d) \<subseteq> task_ids (tk d)"
    by (auto simp: task_ids_without)
  with Cons.IH [OF Cons.prems, of "moved B tk t"] show ?case by auto
qed

lemma drop_target_extra:
  "\<exists>extra. foldl (moved B) tk ts B = tk B @ extra \<and> set extra \<subseteq> set ts
      \<and> task_ids extra \<inter> task_ids (tk B) = {} \<and> distinct (map task_id extra)"
proof (induction ts arbitrary: tk)
  case Nil
  then show ?case by (simp add: task_ids_def)
next
  case (Cons t ts)
  let ?tk' = "moved B tk t"
  from Cons.IH [of ?tk'] obtain e2 where e2:
    "foldl (moved B) ?tk' ts B = ?tk' B @ e2" "set e2 \<subseteq> set ts"
    "task_ids e2 \<inter> task_ids (?tk' B) = {}" "distinct (map task_id e2)"
    by blast
  from moved_target [of B tk t] show ?case
  proof
    assume "?tk' B = tk B"
    with e2 show ?thesis by (intro exI [of _ e2]) auto
  next
    assume "task_id t \<notin> task_ids (tk B) \<and> ?tk' B = tk B @ [t]
       \<and> (\<exists>d. d \<noteq> B \<and> sourceDay tk (task_id t) = Some d)"
    then have t: "task_id t \<notin> task_ids (tk B)" "?tk' B = tk B @ [t]" by auto
    with e2 show ?thesis
      by (intro exI [of _ "t # e2"]) (auto simp: task_ids_def)
  qed
qed

lemma drop_target_ids: "task_ids (tk B) \<subseteq> task_ids (foldl (moved B) tk ts B)"
  using drop_target_extra [of B tk ts] by (auto simp: task_ids_def)

lemma drop_nontarget_filter:
  "d \<noteq> B \<Longrightarrow> \<exists>R. R \<subseteq> task_ids ts
      \<and> foldl (moved B) tk ts d = filter (\<lambda>x. task_id x \<notin> R) (tk d)"
proof (induction ts arbitrary: tk)
  case Nil
  then show ?case by (intro exI [of _ "{}"]) simp
next
  case (Cons t ts)
  let ?tk' = "moved B tk t"
  from Cons.IH [OF Cons.prems, of ?tk'] obtain R where R:
    "R \<subseteq> task_ids ts" "foldl (moved B) ?tk' ts d = filter (\<lambda>x. task_id x \<notin> R) (?tk' d)"
    by blast
  from moved_nontarget [OF Cons.prems, of tk t] show ?case
  proof
    assume "?tk' d = tk d"
    with R show ?thesis by (intro exI [of _ R]) (auto simp: task_ids_def)
  next
    assume "sourceDay tk (task_id t) = Some d \<and> ?tk' d = without_id (tk d) (task_id t)"
    then have "?tk' d = filter (\<lambda>x. task_id x \<noteq> task_id t) (tk d)"
      by (simp add: without_id_def)
    with R have "foldl (moved B) ?tk' ts d = filter (\<lambda>x. task_id x \<notin> insert (task_id t) R) (tk d)"
      by (simp add: conj_commute)
    with R(1) show ?thesis
      by (intro exI [of _ "insert (task_id t) R"]) (auto simp: task_ids_def)
  qed
qed

lemma drop_source_moved:
  "i \<in> task_ids ts \<Longrightarrow> sourceDay tk i = Some d \<Longrightarrow> d \<noteq> B \<Longrightarrow>
     i \<notin> task_ids (foldl (moved B) tk ts d) \<and> i \<in> task_ids (foldl (moved B) tk ts B)"
proof (induction ts arbitrary: tk)
  case Nil
  then show ?case by (simp add: task_ids_def)
next
  case (Cons t ts)
  let ?tk' = "moved B tk t"
  show ?case
  proof (cases "task_id t = i")
    case True
    with Cons.prems moved_source [of tk t d B]
    have "i \<notin> task_ids (?tk' d)" "i \<in> task_ids (?tk' B)" by auto
    with drop_nontarget_subset [OF Cons.prems(3), of ?tk' ts] drop_target_ids [of ?tk' B ts]
    show ?thesis by auto
  next
    case False
    with Cons.prems(1) have in_rest: "i \<in> task_ids ts" by (auto simp: task_ids_def)
    have "sourceDay ?tk' i = sourceDay tk i"
      using False by (intro sourceDay_cong moved_other_id) simp
    with Cons.prems(2) have "sourceDay ?tk' i = Some d" by simp
    from Cons.IH [OF in_rest this Cons.prems(3)] show ?thesis by simp
  qed
qed

lemma drop_unowned:
  "(\<And>t. t \<in> set ts \<Longrightarrow> sourceDay tk (task_id t) = None \<or> sourceDay tk (task_id t) = Some B)
     \<Longrightarrow> foldl (moved B) tk ts = tk"
proof (induction ts)
  case Nil
  then show ?case by simp
next
  case (Cons t ts)
  have "moved B tk t = tk"
    using Cons.prems [of t] by (simp add: moved_unowned)
  with Cons show ?case by simp
qed

section \<open>Dropping on a day (C6)\<close>

text \<open>
  C6. The payload is the single dragged task \<open>t\<close> or the dragged selection \<open>ts\<close>; below,
  \<open>ts\<close> is \<open>[t]\<close> in the first case. \<open>handleDayDrop B\<close> clears the payload and changes
  no field but the buckets. The target bucket keeps its entries in place and gets, at its
  end, payload tasks whose ids it did not hold, each id once. Every other bucket only
  loses entries, and only entries with payload ids. A payload task whose first owning
  bucket is another bucket than \<open>B\<close> is gone from that bucket and its id is in \<open>B\<close>. When
  every payload task is owned by \<open>B\<close> (or by no bucket), no bucket changes.
\<close>

theorem handleDayDrop_moves:
  assumes "draggedTask s = Some (SingleTask t) \<and> ts = [t] \<or> draggedTask s = Some (MultiTasks ts)"
  shows "draggedTask (handleDayDrop B s) = None
    \<and> handleDayDrop B s = s\<lparr>tasks := tasks (handleDayDrop B s), draggedTask := None\<rparr>
    \<and> (\<exists>extra. tasks (handleDayDrop B s) B = tasks s B @ extra
          \<and> set extra \<subseteq> set ts
          \<and> task_ids extra \<inter> task_ids (tasks s B) = {}
          \<and> distinct (map task_id extra))
    \<and> (\<forall>d. d \<noteq> B \<longrightarrow>
          (\<exists>R. R \<subseteq> task_ids ts
             \<and> tasks (handleDayDrop B s) d = filter (\<lambda>x. task_id x \<notin> R) (tasks s d)))
    \<and> (\<forall>x \<in> set ts. \<forall>d.
          sourceDay (tasks s) (task_id x) = Some d \<and> d \<noteq> B \<longrightarrow>
            task_id x \<notin> task_ids (tasks (handleDayDrop B s) d)
            \<and> task_id x \<in> task_ids (tasks (handleDayDrop B s) B))
    \<and> ((\<forall>x \<in> set ts.
           sourceDay (tasks s) (task_id x) = Some B \<or> sourceDay (tasks s) (task_id x) = None)
         \<longrightarrow> tasks (handleDayDrop B s) = tasks s)"
proof -
  from assms obtain p where p: "draggedTask s = Some p" and ts: "tasksOf p = ts"
  proof
    assume "draggedTask s = Some (SingleTask t) \<and> ts = [t]"
    then show ?thesis using that [of "SingleTask t"] by simp
  next
    assume "draggedTask s = Some (MultiTasks ts)"
    then show ?thesis using that [of "MultiTasks ts"] by simp
  qed
  note eq = handleDayDrop_eq [OF p, of B]
  have t: "tasks (handleDayDrop B s) = foldl (moved B) (tasks s) ts"
    by (simp add: eq ts)
  have a1: "draggedTask (handleDayDrop B s) = None"
    by (simp add: eq)
  have a2: "handleDayDrop B s = s\<lparr>tasks := tasks (handleDayDrop B s), draggedTask := None\<rparr>"
    by (simp add: eq)
  have a3: "\<exists>extra. tasks (handleDayDrop B s) B = tasks s B @ extra
          \<and> set extra \<subseteq> set ts
          \<and> task_ids extra \<inter> task_ids (tasks s B) = {}
          \<and> distinct (map task_id extra)"
    unfolding t by (rule drop_target_extra)
  have a4: "\<forall>d. d \<noteq> B \<longrightarrow>
          (\<exists>R. R \<subseteq> task_ids ts
             \<and> tasks (handleDayDrop B s) d = filter (\<lambda>x. task_id x \<notin> R) (tasks s d))"
    unfolding t by (intro allI impI drop_nontarget_filter)
  have a5: "\<forall>x \<in> set ts. \<forall>d.
          sourceDay (tasks s) (task_id x) = Some d \<and> d \<noteq> B \<longrightarrow>
            task_id x \<notin> task_ids (tasks (handleDayDrop B s) d)
            \<and> task_id x \<in> task_ids (tasks (handleDayDrop B s) B)"
  proof (intro ballI allI impI)
    fix x d
    assume x: "x \<in> set ts"
      and d: "sourceDay (tasks s) (task_id x) = Some d \<and> d \<noteq> B"
    from x have "task_id x \<in> task_ids ts" by (simp add: task_ids_def)
    with d show "task_id x \<notin> task_ids (tasks (handleDayDrop B s) d)
            \<and> task_id x \<in> task_ids (tasks (handleDayDrop B s) B)"
      unfolding t by (intro drop_source_moved) simp_all
  qed
  have a6: "(\<forall>x \<in> set ts.
           sourceDay (tasks s) (task_id x) = Some B \<or> sourceDay (tasks s) (task_id x) = None)
         \<longrightarrow> tasks (handleDayDrop B s) = tasks s"
  proof
    assume "\<forall>x \<in> set ts.
           sourceDay (tasks s) (task_id x) = Some B \<or> sourceDay (tasks s) (task_id x) = None"
    then have "foldl (moved B) (tasks s) ts = tasks s"
      by (intro drop_unowned) auto
    then show "tasks (handleDayDrop B s) = tasks s" by (simp add: t)
  qed
  from a1 a2 a3 a4 a5 a6 show ?thesis by blast
qed

lemma drag_example_fields:
  "draggedTask drag_example = Some (MultiTasks [t1, t3])"
  "tasks drag_example = initialTasks"
  "selectedTasks drag_example = [t1, t3]"
  by (simp_all add: drag_example_def handleDragStart_def selectTask_def initial_def
      some_id_def t1_def t3_def mk_def)

lemma drag_example_sources:
  "sourceDay (tasks drag_example) (task_id t1) = Some Lundi"
  "sourceDay (tasks drag_example) (task_id t3) = Some Mardi"
  by (simp_all add: drag_example_fields sourceDay_def weekdays_def some_id_def t1_def t3_def mk_def)

lemma single_drag_example_fields:
  "draggedTask single_drag_example = Some (SingleTask t3)"
  "tasks single_drag_example = initialTasks"
  "selectedTasks single_drag_example = [t3]"
  by (simp_all add: single_drag_example_def handleDragStart_def initial_def some_id_def Let_def)

lemma single_drag_example_source:
  "sourceDay (tasks single_drag_example) (task_id t3) = Some Mardi"
  by (simp add: single_drag_example_fields sourceDay_def weekdays_def some_id_def t3_def mk_def)

lemma single_extra:
  assumes "set extra \<subseteq> {t}" and "distinct (map task_id extra)" and "extra \<noteq> []"
  shows "extra = [t]"
proof (cases extra)
  case Nil
  with assms(3) show ?thesis by simp
next
  case (Cons x xs)
  with assms(1) have x: "x = t" by simp
  have "xs = []"
  proof (cases xs)
    case Nil
    then show ?thesis .
  next
    case (Cons y ys)
    with \<open>extra = x # xs\<close> assms(1) have "y = t" by simp
    with x Cons \<open>extra = x # xs\<close> assms(2) show ?thesis by simp
  qed
  with x Cons show ?thesis by simp
qed

theorem handleDayDrop_moves_witness:
  "draggedTask drag_example = Some (MultiTasks [t1, t3])
   \<and> sourceDay (tasks drag_example) (task_id t1) = Some Lundi
   \<and> sourceDay (tasks drag_example) (task_id t3) = Some Mardi
   \<and> task_id t1 \<notin> task_ids (tasks (handleDayDrop Mardi drag_example) Lundi)
   \<and> task_id t1 \<in> task_ids (tasks (handleDayDrop Mardi drag_example) Mardi)
   \<and> tasks (handleDayDrop Mardi drag_example) Mardi = initialTasks Mardi @ [t1]
   \<and> draggedTask (handleDayDrop Mardi drag_example) = None
   \<and> draggedTask single_drag_example = Some (SingleTask t3)
   \<and> sourceDay (tasks single_drag_example) (task_id t3) = Some Mardi
   \<and> tasks (handleDayDrop Samedi single_drag_example) Samedi = [t3]
   \<and> task_id t3 \<notin> task_ids (tasks (handleDayDrop Samedi single_drag_example) Mardi)
   \<and> draggedTask (handleDayDrop Samedi single_drag_example) = None"
proof -
  have mem: "t1 \<in> set [t1, t3]" by simp
  from handleDayDrop_moves [of drag_example _ "[t1, t3]" Mardi] drag_example_fields(1)
    mem drag_example_sources(1)
  have multi: "task_id t1 \<notin> task_ids (tasks (handleDayDrop Mardi drag_example) Lundi)
     \<and> task_id t1 \<in> task_ids (tasks (handleDayDrop Mardi drag_example) Mardi)
     \<and> draggedTask (handleDayDrop Mardi drag_example) = None"
    by blast
  have multi': "tasks (handleDayDrop Mardi drag_example) Mardi = initialTasks Mardi @ [t1]"
    by (simp add: handleDayDrop_eq [OF drag_example_fields(1)] drag_example_fields moved_eq
        sourceDay_def weekdays_def some_id_def without_id_def task_ids_def t1_def t3_def mk_def)
  let ?r = "handleDayDrop Samedi single_drag_example"
  have hyp: "draggedTask single_drag_example = Some (SingleTask t3) \<and> [t3] = [t3]
      \<or> draggedTask single_drag_example = Some (MultiTasks [t3])"
    by (simp add: single_drag_example_fields)
  note inst = handleDayDrop_moves [OF hyp, of Samedi]
  from inst obtain extra where extra: "tasks ?r Samedi = tasks single_drag_example Samedi @ extra"
    "set extra \<subseteq> set [t3]" "distinct (map task_id extra)"
    by blast
  from inst single_drag_example_source
  have gone: "task_id t3 \<notin> task_ids (tasks ?r Mardi)" and there: "task_id t3 \<in> task_ids (tasks ?r Samedi)"
    and cleared: "draggedTask ?r = None"
    by auto
  from there extra(1) have "extra \<noteq> []"
    by (auto simp: single_drag_example_fields)
  with extra(2,3) have "extra = [t3]" by (intro single_extra) simp_all
  with extra(1) have single: "tasks ?r Samedi = [t3]"
    by (simp add: single_drag_example_fields)
  from multi multi' single gone cleared show ?thesis
    using drag_example_sources drag_example_fields(1) single_drag_example_fields(1)
      single_drag_example_source by simp
qed

section \<open>A drop after an edit (C10)\<close>

lemma drop_guard:
  "i \<in> task_ids (tk B) \<Longrightarrow>
     filter (\<lambda>x. task_id x = i) (foldl (moved B) tk ts B) = filter (\<lambda>x. task_id x = i) (tk B)"
proof (induction ts arbitrary: tk)
  case Nil
  then show ?case by simp
next
  case (Cons t ts)
  let ?tk' = "moved B tk t"
  from moved_target [of B tk t] Cons.prems
  have same: "filter (\<lambda>x. task_id x = i) (?tk' B) = filter (\<lambda>x. task_id x = i) (tk B)"
    and still: "i \<in> task_ids (?tk' B)"
    by auto
  from Cons.IH [of ?tk', OF still] same show ?case by simp
qed

lemma filter_absent: "i \<notin> task_ids xs \<Longrightarrow> filter (\<lambda>x. task_id x = i) xs = []"
  by (auto simp: task_ids_def filter_empty_conv)

lemma drop_places_payload:
  "find (\<lambda>x. task_id x = i) ts = Some u \<Longrightarrow> sourceDay tk i = Some d \<Longrightarrow> d \<noteq> B \<Longrightarrow>
   i \<notin> task_ids (tk B) \<Longrightarrow>
     filter (\<lambda>x. task_id x = i) (foldl (moved B) tk ts B) = [u]"
proof (induction ts arbitrary: tk)
  case Nil
  then show ?case by simp
next
  case (Cons t ts)
  let ?tk' = "moved B tk t"
  show ?case
  proof (cases "task_id t = i")
    case True
    with Cons.prems(1) have u: "u = t" by simp
    from True Cons.prems have B': "?tk' B = tk B @ [t]"
      by (simp add: moved_eq)
    with True Cons.prems(4) have "filter (\<lambda>x. task_id x = i) (?tk' B) = [t]"
      by (simp add: filter_absent)
    moreover from B' True have "i \<in> task_ids (?tk' B)" by simp
    ultimately show ?thesis using drop_guard [of i ?tk' B ts] u by simp
  next
    case False
    then have other: "i \<noteq> task_id t" by simp
    from False Cons.prems(1) have f: "find (\<lambda>x. task_id x = i) ts = Some u" by simp
    have "sourceDay ?tk' i = sourceDay tk i"
      using other by (intro sourceDay_cong moved_other_id) simp
    with Cons.prems(2) have src: "sourceDay ?tk' i = Some d" by simp
    have "i \<notin> task_ids (?tk' B)"
      using moved_other_id [OF other, of B tk B] Cons.prems(4) by (simp add: some_id_iff)
    from Cons.IH [OF f src Cons.prems(3) this] show ?thesis by simp
  qed
qed

lemma saveLoop_task_ids: "task_ids (saveLoop ds i f tk d) = task_ids (tk d)"
proof -
  have "set (map task_id (saveLoop ds i f tk d)) = set (map task_id (tk d))"
    by (simp only: saveLoop_ids)
  then show ?thesis by (simp add: task_ids_def)
qed

lemma handleDragStart_fields:
  "tasks (handleDragStart t s) = tasks s"
  "folder (handleDragStart t s) = folder s"
  "currentTask (handleDragStart t s) = currentTask s"
  "formData (handleDragStart t s) = formData s"
  "clipboard (handleDragStart t s) = clipboard s"
  "clipboardMode (handleDragStart t s) = clipboardMode s"
  by (simp_all add: handleDragStart_def Let_def)

lemma handleDragStart_payload:
  "draggedTask (handleDragStart t s) =
     Some (if task_id t \<in> task_ids (selectedTasks s) \<and> 1 < length (selectedTasks s)
           then MultiTasks (selectedTasks s) else SingleTask t)"
  by (simp add: handleDragStart_def Let_def some_id_iff)

lemma handleDragStart_selection:
  "selectedTasks (handleDragStart t s) =
     (if task_id t \<in> task_ids (selectedTasks s) \<and> length (selectedTasks s) \<le> 1
        \<or> task_id t \<in> task_ids (selectedTasks s) \<and> 1 < length (selectedTasks s)
      then selectedTasks s else [t])"
  by (auto simp: handleDragStart_def Let_def some_id_iff)

text \<open>
  C10. An edit is in progress on the task with the id of \<open>t\<close>, which bucket \<open>d\<close> holds and
  no other bucket does. After \<open>handleDragStart t\<close>, \<open>saveChanges\<close> and \<open>handleDayDrop B\<close> with
  \<open>B\<close> another bucket than \<open>d\<close>, the only bucket entry with that id is in \<open>B\<close>, and it is
  the value the payload captured when the drag began (the task \<open>t\<close> itself for a single
  drag, the selection entry for a drag of the selection), not the edited one; the
  selection and folder entries with that id carry the title, description and points of
  the form.
\<close>

theorem drop_after_edit_is_stale:
  assumes "currentTask s = Some cur" and "task_id cur = task_id t"
    and "sourceDay (tasks s) (task_id t) = Some d" and "d \<noteq> B"
    and "\<forall>d'. d' \<noteq> d \<longrightarrow> task_id t \<notin> task_ids (tasks s d')"
  shows "\<exists>dragged u.
      draggedTask (handleDragStart t s) = Some dragged
    \<and> find (\<lambda>x. task_id x = task_id t) (tasksOf dragged) = Some u
    \<and> (dragged = SingleTask t \<and> u = t \<or> dragged = MultiTasks (selectedTasks s) \<and> u \<in> set (selectedTasks s))
    \<and> filter (\<lambda>x. task_id x = task_id t)
        (tasks (handleDayDrop B (saveChanges (handleDragStart t s))) B) = [u]
    \<and> (\<forall>d'. d' \<noteq> B \<longrightarrow>
          task_id t \<notin> task_ids (tasks (handleDayDrop B (saveChanges (handleDragStart t s))) d'))
    \<and> (\<forall>x \<in> set (selectedTasks (handleDayDrop B (saveChanges (handleDragStart t s))))
             \<union> set (folder (handleDayDrop B (saveChanges (handleDragStart t s)))).
          task_id x = task_id t \<longrightarrow>
            title x = form_title (formData s)
            \<and> description x = form_description (formData s)
            \<and> points x = form_points (formData s))"
proof -
  let ?i = "task_id t"
  let ?s1 = "handleDragStart t s"
  let ?s2 = "saveChanges ?s1"
  let ?s3 = "handleDayDrop B ?s2"
  let ?multi = "?i \<in> task_ids (selectedTasks s) \<and> 1 < length (selectedTasks s)"
  let ?dragged = "if ?multi then MultiTasks (selectedTasks s) else SingleTask t"
  have cur1: "currentTask ?s1 = Some cur"
    using assms(1) by (simp add: handleDragStart_fields)
  note s2 = saveChanges_Some [OF cur1]
  have drag1: "draggedTask ?s1 = Some ?dragged"
    by (rule handleDragStart_payload)
  have drag2: "draggedTask ?s2 = Some ?dragged"
    using drag1 by (simp add: s2)
  note s3 = handleDayDrop_eq [OF drag2, of B]
  have ids2: "task_ids (tasks ?s2 d') = task_ids (tasks s d')" for d'
    by (simp add: s2 saveLoop_task_ids handleDragStart_fields)
  have src2: "sourceDay (tasks ?s2) ?i = Some d"
    using assms(3) sourceDay_cong [of "tasks ?s2" ?i "tasks s"]
    by (simp add: some_id_iff ids2)
  have notB: "?i \<notin> task_ids (tasks ?s2 B)"
    using assms(4,5) by (simp add: ids2)
  obtain u where u: "find (\<lambda>x. task_id x = ?i) (tasksOf ?dragged) = Some u"
    "?dragged = SingleTask t \<and> u = t \<or> ?dragged = MultiTasks (selectedTasks s) \<and> u \<in> set (selectedTasks s)"
  proof (cases ?multi)
    case True
    then obtain u where "find (\<lambda>x. task_id x = ?i) (selectedTasks s) = Some u"
      by (cases "find (\<lambda>x. task_id x = ?i) (selectedTasks s)")
        (auto simp: find_None_iff task_ids_def)
    moreover from this have "u \<in> set (selectedTasks s)"
      by (auto simp: find_Some_iff)
    moreover from True have "?dragged = MultiTasks (selectedTasks s)"
      by (simp only: simp_thms if_True)
    ultimately show ?thesis using that [of u] by simp
  next
    case False
    then have "?dragged = SingleTask t" by (simp only: if_False)
    then show ?thesis using that [of t] by simp
  qed
  have placed: "filter (\<lambda>x. task_id x = ?i) (tasks ?s3 B) = [u]"
    using drop_places_payload [OF u(1) src2 assms(4) notB] by (simp add: s3)
  have gone: "\<forall>d'. d' \<noteq> B \<longrightarrow> ?i \<notin> task_ids (tasks ?s3 d')"
  proof (intro allI impI)
    fix d'
    assume d': "d' \<noteq> B"
    show "?i \<notin> task_ids (tasks ?s3 d')"
    proof (cases "d' = d")
      case True
      from u(1) have "?i \<in> task_ids (tasksOf ?dragged)"
        by (auto simp: find_Some_iff task_ids_def)
      from drop_source_moved [OF this src2 assms(4)] True show ?thesis
        by (simp add: s3)
    next
      case False
      with assms(5) have "?i \<notin> task_ids (tasks ?s2 d')" by (simp add: ids2)
      with drop_nontarget_subset [OF d', of "tasks ?s2" "tasksOf ?dragged"] show ?thesis
        by (auto simp: s3)
    qed
  qed
  have edited: "\<forall>x \<in> set (selectedTasks ?s3) \<union> set (folder ?s3).
          task_id x = ?i \<longrightarrow>
            title x = form_title (formData s)
            \<and> description x = form_description (formData s)
            \<and> points x = form_points (formData s)"
  proof -
    have same: "selectedTasks ?s3 = selectedTasks ?s2" "folder ?s3 = folder ?s2"
      by (simp_all add: s3)
    have "\<forall>x \<in> set (selectedTasks ?s2) \<union> set (folder ?s2).
          task_id x = ?i \<longrightarrow>
            title x = form_title (formData s)
            \<and> description x = form_description (formData s)
            \<and> points x = form_points (formData s)"
      using assms(2) by (auto simp: s2 handleDragStart_fields)
    then show ?thesis by (simp only: same)
  qed
  from drag1 u placed gone edited show ?thesis by blast
qed

lemma stale_example_fields:
  "currentTask stale_example = Some t3"
  "tasks stale_example = initialTasks"
  "selectedTasks stale_example = []"
  "folder stale_example = [t3]"
  "formData stale_example =
     \<lparr>form_title = ''Conception'', form_description = ''Creer les maquettes'', form_points = 8\<rparr>"
  by (simp_all add: stale_example_def openEditModal_def addSelectedTasksToFolder_def
      selectTask_def initial_def newTasksForFolder_def some_id_def t3_def mk_def Let_def)

lemma stale_example_unique: "d' \<noteq> Mardi \<Longrightarrow> task_id t3 \<notin> task_ids (tasks stale_example d')"
  by (cases d') (simp_all add: stale_example_fields t3_def mk_def)

theorem drop_after_edit_is_stale_witness:
  "currentTask stale_example = Some t3
   \<and> sourceDay (tasks stale_example) (task_id t3) = Some Mardi
   \<and> title (hd (tasks (saveChanges (handleDragStart t3 stale_example)) Mardi)) = ''Conception''
   \<and> filter (\<lambda>x. task_id x = task_id t3)
       (tasks (handleDayDrop Samedi (saveChanges (handleDragStart t3 stale_example))) Samedi) = [t3]
   \<and> title t3 = ''Conception UI''
   \<and> map title (selectedTasks (handleDayDrop Samedi (saveChanges (handleDragStart t3 stale_example))))
       = [''Conception'']
   \<and> map title (folder (handleDayDrop Samedi (saveChanges (handleDragStart t3 stale_example))))
       = [''Conception'']"
proof -
  let ?s1 = "handleDragStart t3 stale_example"
  let ?s3 = "handleDayDrop Samedi (saveChanges ?s1)"
  have cur: "currentTask stale_example = Some t3"
    by (simp add: stale_example_fields)
  have src: "sourceDay (tasks stale_example) (task_id t3) = Some Mardi"
    by (simp add: stale_example_fields sourceDay_def weekdays_def some_id_def t3_def mk_def)
  have uniq: "\<forall>d'. d' \<noteq> Mardi \<longrightarrow> task_id t3 \<notin> task_ids (tasks stale_example d')"
    by (simp add: stale_example_unique)
  have drag: "draggedTask ?s1 = Some (SingleTask t3)"
    by (simp add: handleDragStart_payload stale_example_fields)
  from drop_after_edit_is_stale [OF cur refl src _ uniq, of Samedi]
  obtain dragged u where du:
    "draggedTask ?s1 = Some dragged"
    "find (\<lambda>x. task_id x = task_id t3) (tasksOf dragged) = Some u"
    "filter (\<lambda>x. task_id x = task_id t3) (tasks ?s3 Samedi) = [u]"
    by auto
  from du(1) drag have "dragged = SingleTask t3" by simp
  with du(2) have "u = t3" by simp
  with du(3) have placed: "filter (\<lambda>x. task_id x = task_id t3) (tasks ?s3 Samedi) = [t3]"
    by simp
  have cur1: "currentTask ?s1 = Some t3"
    by (simp add: handleDragStart_fields cur)
  have sel1: "selectedTasks ?s1 = [t3]"
    by (simp add: handleDragStart_selection stale_example_fields)
  have drag2: "draggedTask (saveChanges ?s1) = Some (SingleTask t3)"
    by (simp add: saveChanges_Some [OF cur1] drag)
  have "tasks (saveChanges ?s1) = saveLoop weekdays (task_id t3) (formData stale_example) initialTasks"
    by (simp add: saveChanges_Some [OF cur1] handleDragStart_fields stale_example_fields)
  then have bucket: "title (hd (tasks (saveChanges ?s1) Mardi)) = ''Conception''"
    by (simp add: stale_example_fields weekdays_def t3_def mk_def)
  have same: "selectedTasks ?s3 = selectedTasks (saveChanges ?s1)"
    "folder ?s3 = folder (saveChanges ?s1)"
    by (simp_all add: handleDayDrop_eq [OF drag2])
  have "map title (selectedTasks (saveChanges ?s1)) = [''Conception'']"
    by (simp add: saveChanges_Some [OF cur1] sel1 handleDragStart_fields stale_example_fields)
  then have sel3: "map title (selectedTasks ?s3) = [''Conception'']"
    by (simp only: same)
  have "map title (folder (saveChanges ?s1)) = [''Conception'']"
    by (simp add: saveChanges_Some [OF cur1] handleDragStart_fields stale_example_fields)
  then have fld3: "map title (folder ?s3) = [''Conception'']"
    by (simp only: same)
  have "title t3 = ''Conception UI''" by (simp add: t3_def mk_def)
  with cur src bucket placed sel3 fld3 show ?thesis by simp
qed

section \<open>Uniqueness of ids (C1)\<close>

lemma task_ids_map: "task_ids xs = set (map task_id xs)"
  by (simp add: task_ids_def)

lemma distinct_without: "distinct (map task_id xs) \<Longrightarrow> distinct (map task_id (without_id xs i))"
  by (simp add: without_id_def distinct_map_filter)

lemma buckets_unique_same_ids:
  "(\<And>d. map task_id (tk' d) = map task_id (tk d)) \<Longrightarrow> buckets_unique tk \<Longrightarrow> buckets_unique tk'"
  by (simp add: buckets_unique_def task_ids_map)

lemma buckets_unique_append:
  assumes "buckets_unique tk" and "distinct (map task_id xs)"
    and "\<And>d. task_ids xs \<inter> task_ids (tk d) = {}"
  shows "buckets_unique (tk(B := tk B @ xs))"
proof -
  have within: "distinct (map task_id ((tk(B := tk B @ xs)) d))" for d
  proof (cases "d = B")
    case True
    have "distinct (map task_id (tk B))" using assms(1) by (simp add: buckets_unique_def)
    moreover have "set (map task_id (tk B)) \<inter> set (map task_id xs) = {}"
      using assms(3) [of B] by (auto simp: task_ids_map)
    ultimately show ?thesis using True assms(2) by simp
  next
    case False
    then show ?thesis using assms(1) by (simp add: buckets_unique_def)
  qed
  have across: "task_ids ((tk(B := tk B @ xs)) d) \<inter> task_ids ((tk(B := tk B @ xs)) d') = {}"
    if "d \<noteq> d'" for d d'
  proof -
    have old: "task_ids (tk d) \<inter> task_ids (tk d') = {}"
      using assms(1) that by (simp add: buckets_unique_def)
    from assms(3) [of d] assms(3) [of d'] old that show ?thesis
      by (auto split: if_splits)
  qed
  from within across show ?thesis
    unfolding buckets_unique_def by blast
qed

lemma buckets_unique_without:
  assumes "buckets_unique tk"
  shows "buckets_unique (tk(src := without_id (tk src) i))"
proof -
  have within: "distinct (map task_id ((tk(src := without_id (tk src) i)) d))" for d
    using assms by (simp add: buckets_unique_def distinct_without)
  have across:
    "task_ids ((tk(src := without_id (tk src) i)) d) \<inter> task_ids ((tk(src := without_id (tk src) i)) d') = {}"
    if "d \<noteq> d'" for d d'
  proof -
    have old: "task_ids (tk d) \<inter> task_ids (tk d') = {}"
      using assms that by (simp add: buckets_unique_def)
    then show ?thesis by (auto simp: task_ids_without)
  qed
  from within across show ?thesis
    unfolding buckets_unique_def by blast
qed

lemma buckets_unique_owner:
  "buckets_unique tk \<Longrightarrow> i \<in> task_ids (tk d) \<Longrightarrow> d' \<noteq> d \<Longrightarrow> i \<notin> task_ids (tk d')"
  by (auto simp: buckets_unique_def)

lemma buckets_unique_cutOne: "buckets_unique tk \<Longrightarrow> buckets_unique (cutOne tk t)"
  by (simp add: cutOne_def buckets_unique_without split: option.splits)

lemma buckets_unique_cut: "buckets_unique tk \<Longrightarrow> buckets_unique (foldl cutOne tk sel)"
  by (induction sel arbitrary: tk) (simp_all add: buckets_unique_cutOne)

lemma cut_removes_selected:
  assumes "buckets_unique tk" and "i \<in> task_ids sel"
  shows "i \<notin> task_ids (foldl cutOne tk sel d)"
proof (cases "sourceDay tk i")
  case None
  then have "i \<notin> task_ids (tk d)" by (simp add: sourceDay_None_iff)
  with cut_ids_subset [of tk sel d] show ?thesis by auto
next
  case (Some d0)
  show ?thesis
  proof (cases "d = d0")
    case True
    with cut_source_removed [OF assms(2) Some] show ?thesis by simp
  next
    case False
    from sourceDay_SomeD [OF Some] have "i \<in> task_ids (tk d0)" .
    from buckets_unique_owner [OF assms(1) this False] cut_ids_subset [of tk sel d]
    show ?thesis by auto
  qed
qed

lemma buckets_unique_moved:
  assumes "buckets_unique tk"
  shows "buckets_unique (moved B tk t)"
proof (cases "sourceDay tk (task_id t)")
  case None
  with assms show ?thesis by (simp add: moved_eq)
next
  case (Some src)
  show ?thesis
  proof (cases "src = B")
    case True
    with Some assms show ?thesis by (simp add: moved_eq)
  next
    case False
    let ?tk1 = "tk(src := without_id (tk src) (task_id t))"
    from sourceDay_SomeD [OF Some] have own: "task_id t \<in> task_ids (tk src)" .
    have notB: "task_id t \<notin> task_ids (tk B)"
      using buckets_unique_owner [OF assms own, of B] False by simp
    have u1: "buckets_unique ?tk1" using assms by (rule buckets_unique_without)
    have free: "task_ids [t] \<inter> task_ids (?tk1 d) = {}" for d
    proof (cases "d = src")
      case True
      then show ?thesis by (simp add: task_ids_without)
    next
      case False
      with buckets_unique_owner [OF assms own, of d] show ?thesis by simp
    qed
    have "buckets_unique (?tk1(B := ?tk1 B @ [t]))"
      using u1 _ free by (rule buckets_unique_append) simp
    moreover have "moved B tk t = ?tk1(B := ?tk1 B @ [t])"
      using Some False notB by (simp add: moved_eq)
    ultimately show ?thesis by simp
  qed
qed

lemma buckets_unique_drop: "buckets_unique tk \<Longrightarrow> buckets_unique (foldl (moved B) tk ts)"
  by (induction ts arbitrary: tk) (simp_all add: buckets_unique_moved)

lemma moved_ids_old: "i \<in> task_ids (moved B tk t d) \<Longrightarrow> \<exists>d'. i \<in> task_ids (tk d')"
  by (auto simp: moved_eq task_ids_without split: option.splits if_splits dest: sourceDay_SomeD)

lemma drop_ids_old: "i \<in> task_ids (foldl (moved B) tk ts d) \<Longrightarrow> \<exists>d'. i \<in> task_ids (tk d')"
proof (induction ts arbitrary: tk d)
  case Nil
  then show ?case by auto
next
  case (Cons t ts)
  from Cons.IH [of "moved B tk t" d] Cons.prems
  obtain d1 where "i \<in> task_ids (moved B tk t d1)" by auto
  then show ?case by (rule moved_ids_old)
qed

lemma task_ids_newTasksForFolder:
  "task_ids (newTasksForFolder fld xs) = task_ids xs - task_ids fld"
  unfolding newTasksForFolder_eq task_ids_def by auto

lemma distinct_folder_add:
  assumes "distinct (map task_id fld)" and "distinct (map task_id xs)"
  shows "distinct (map task_id (fld @ newTasksForFolder fld xs))"
proof -
  have "distinct (map task_id (newTasksForFolder fld xs))"
    using assms(2) by (simp add: newTasksForFolder_eq distinct_map_filter)
  moreover have "task_ids fld \<inter> task_ids (newTasksForFolder fld xs) = {}"
    by (auto simp: task_ids_newTasksForFolder)
  ultimately show ?thesis
    using assms(1) by (simp add: task_ids_map)
qed

lemma copies_fresh: "task_ids (taskCopies (nextId tk) xs) \<inter> task_ids (tk d) = {}"
proof -
  have "i < nextId tk" if "i \<in> task_ids (tk d)" for i
    using that nextId_greater [of _ tk] by (auto simp: task_ids_def set_all_tasks)
  then show ?thesis by (fastforce simp: task_ids_taskCopies)
qed

subsection \<open>Every handler keeps the invariant\<close>

lemma invariant_initial: "invariant initial"
proof -
  have within: "distinct (map task_id (initialTasks d))" for d
    by (cases d) (simp_all add: mk_def)
  have across: "task_ids (initialTasks d) \<inter> task_ids (initialTasks d') = {}" if "d \<noteq> d'" for d d'
    using that by (cases d; cases d') (simp_all add: mk_def)
  have "buckets_unique initialTasks"
    unfolding buckets_unique_def using within across by blast
  then show ?thesis by (simp add: invariant_def initial_def)
qed

lemma invariant_selection:
  "invariant s \<Longrightarrow> distinct (map task_id sel) \<Longrightarrow> invariant (s\<lparr>selectedTasks := sel\<rparr>)"
  by (simp add: invariant_def)

lemma invariant_folder:
  "invariant s \<Longrightarrow> distinct (map task_id fld) \<Longrightarrow> invariant (s\<lparr>folder := fld\<rparr>)"
  by (simp add: invariant_def)

lemma invariant_dragged:
  "invariant s \<Longrightarrow> (\<And>p. dr = Some p \<Longrightarrow> distinct (map task_id (tasksOf p))) \<Longrightarrow>
     invariant (s\<lparr>draggedTask := dr\<rparr>)"
  by (simp add: invariant_def)

lemma invariantD:
  assumes "invariant s"
  shows "buckets_unique (tasks s)"
    and "distinct (map task_id (folder s))"
    and "distinct (map task_id (selectedTasks s))"
    and "draggedTask s = Some p \<Longrightarrow> distinct (map task_id (tasksOf p))"
  using assms by (simp_all add: invariant_def)

lemma invariant_selectTask:
  assumes "invariant s"
  shows "invariant (selectTask t c s)"
proof -
  note sel = invariantD(3) [OF assms]
  have "distinct (map task_id (without_id (selectedTasks s) (task_id t)))"
    using sel by (rule distinct_without)
  moreover have "distinct (map task_id (selectedTasks s @ [t]))"
    if "\<not> some_id (selectedTasks s) (task_id t)"
    using that sel by (simp add: some_id_iff task_ids_map)
  ultimately show ?thesis
    using assms by (simp add: selectTask_def Let_def invariant_selection)
qed

lemma invariant_copy: "invariant s \<Longrightarrow> invariant (copySelectedTasks s)"
  by (simp add: invariant_def copySelectedTasks_def Let_def)

lemma invariant_cut:
  assumes "invariant s"
  shows "invariant (cutSelectedTasks s)"
proof (cases "selectedTasks s = []")
  case True
  with assms show ?thesis by (simp add: cutSelectedTasks_def)
next
  case False
  have u: "buckets_unique (tasks s)" and sel: "distinct (map task_id (selectedTasks s))"
    using assms by (simp_all add: invariant_def)
  have "task_ids (selectedTasks s) \<inter> task_ids (foldl cutOne (tasks s) (selectedTasks s) d) = {}" for d
    using cut_removes_selected [OF u, of _ "selectedTasks s" d] by auto
  with assms buckets_unique_cut [OF u, of "selectedTasks s"] sel show ?thesis
    by (simp add: cut_nonempty [OF False] invariant_def)
qed

lemma invariant_paste:
  assumes "invariant s"
  shows "invariant (pasteTasksToDay B s)"
proof (cases "clipboard s = []")
  case True
  with assms show ?thesis by (simp add: paste_empty)
next
  case False
  have u: "buckets_unique (tasks s)" using assms by (simp add: invariant_def)
  show ?thesis
  proof (cases "clipboardMode s")
    case Cut
    with assms have "distinct (map task_id (clipboard s))"
      "\<And>d. task_ids (clipboard s) \<inter> task_ids (tasks s d) = {}"
      by (simp_all add: invariant_def)
    with u have "buckets_unique ((tasks s)(B := tasks s B @ clipboard s))"
      by (rule buckets_unique_append)
    with assms show ?thesis
      by (simp add: paste_cut_mode [OF False Cut] invariant_def)
  next
    case Copy
    have "buckets_unique ((tasks s)(B := tasks s B @ taskCopies (nextId (tasks s)) (clipboard s)))"
      using u distinct_ids_taskCopies copies_fresh by (rule buckets_unique_append)
    with assms Copy show ?thesis
      by (simp add: paste_copy_mode [OF False Copy] invariant_def)
  qed
qed

lemma invariant_add:
  assumes "invariant s"
  shows "invariant (addSelectedTasksToFolder s)"
proof (cases "selectedTasks s = []")
  case True
  with assms show ?thesis by (simp add: addSelectedTasksToFolder_def)
next
  case False
  have "distinct (map task_id (folder s @ newTasksForFolder (folder s) (selectedTasks s)))"
    using invariantD(2,3) [OF assms] by (rule distinct_folder_add)
  with assms have "invariant (s\<lparr>folder := folder s @ newTasksForFolder (folder s) (selectedTasks s)\<rparr>)"
    by (rule invariant_folder)
  then have "invariant (s\<lparr>folder := folder s @ newTasksForFolder (folder s) (selectedTasks s),
      selectedTasks := []\<rparr>)"
    by (rule invariant_selection) simp
  then show ?thesis by (simp only: folder_after_add [OF False])
qed

lemma invariant_remove: "invariant s \<Longrightarrow> invariant (removeFromFolder i s)"
  unfolding removeFromFolder_def
  by (rule invariant_folder) (simp_all add: invariantD(2) distinct_without)

lemma invariant_open: "invariant s \<Longrightarrow> invariant (openEditModal t s)"
  by (simp add: invariant_def openEditModal_def)

lemma invariant_close: "invariant s \<Longrightarrow> invariant (closeModal s)"
  by (simp add: invariant_def closeModal_def)

lemma invariant_form: "invariant s \<Longrightarrow> invariant (handleFormChange c s)"
  by (cases c) (simp_all add: invariant_def)

lemma invariant_tasks:
  assumes "invariant s" and "buckets_unique tk"
    and "\<And>i d. i \<in> task_ids (tk d) \<Longrightarrow> \<exists>d'. i \<in> task_ids (tasks s d')"
  shows "invariant (s\<lparr>tasks := tk\<rparr>)"
proof -
  have "task_ids (clipboard s) \<inter> task_ids (tk d) = {}"
    if "\<And>d'. task_ids (clipboard s) \<inter> task_ids (tasks s d') = {}" for d
    using that assms(3) [of _ d] by blast
  with assms(1,2) show ?thesis by (simp add: invariant_def)
qed

lemma invariant_modal:
  "invariant s \<Longrightarrow> invariant (s\<lparr>isModalOpen := b, currentTask := c\<rparr>)"
  by (simp add: invariant_def)

lemma invariant_save:
  assumes "invariant s"
  shows "invariant (saveChanges s)"
proof (cases "currentTask s")
  case None
  with assms show ?thesis by (simp add: saveChanges_def)
next
  case (Some cur)
  let ?edit = "map (\<lambda>t. if task_id t = task_id cur then updated (formData s) t else t)"
  let ?tk = "saveLoop weekdays (task_id cur) (formData s) (tasks s)"
  have "buckets_unique ?tk"
  proof (rule buckets_unique_same_ids)
    show "map task_id (?tk d) = map task_id (tasks s d)" for d by (rule saveLoop_ids)
    show "buckets_unique (tasks s)" by (rule invariantD(1) [OF assms])
  qed
  with assms have "invariant (s\<lparr>tasks := ?tk\<rparr>)"
    by (rule invariant_tasks) (auto simp only: saveLoop_task_ids)
  moreover have "distinct (map task_id (?edit (selectedTasks s)))"
    using invariantD(3) [OF assms] by (simp only: map_task_id_edit)
  ultimately have "invariant (s\<lparr>tasks := ?tk, selectedTasks := ?edit (selectedTasks s)\<rparr>)"
    by (rule invariant_selection)
  moreover have "distinct (map task_id (?edit (folder s)))"
    using invariantD(2) [OF assms] by (simp only: map_task_id_edit)
  ultimately have "invariant (s\<lparr>tasks := ?tk, selectedTasks := ?edit (selectedTasks s),
      folder := ?edit (folder s)\<rparr>)"
    by (rule invariant_folder)
  then have "invariant (s\<lparr>tasks := ?tk, selectedTasks := ?edit (selectedTasks s),
      folder := ?edit (folder s), isModalOpen := False, currentTask := None\<rparr>)"
    by (rule invariant_modal)
  then show ?thesis by (simp only: saveChanges_Some [OF Some])
qed

lemma invariant_drag:
  assumes "invariant s"
  shows "invariant (handleDragStart t s)"
proof -
  have multi: "invariant (s\<lparr>draggedTask := Some (MultiTasks (selectedTasks s))\<rparr>)"
    using assms by (rule invariant_dragged) (auto simp: invariantD(3) [OF assms])
  have one: "invariant (s\<lparr>selectedTasks := [t]\<rparr>)"
    using assms by (rule invariant_selection) simp
  have single: "invariant (s'\<lparr>draggedTask := Some (SingleTask t)\<rparr>)" if "invariant s'" for s'
    using that by (rule invariant_dragged) auto
  from multi single [OF one] single [OF assms] show ?thesis
    by (simp add: handleDragStart_def Let_def)
qed

lemma invariant_drop:
  assumes "invariant s"
  shows "invariant (handleDayDrop B s)"
proof (cases "draggedTask s")
  case None
  with assms show ?thesis by (simp add: handleDayDrop_def)
next
  case (Some p)
  let ?tk' = "foldl (moved B) (tasks s) (tasksOf p)"
  have u: "buckets_unique ?tk'"
    using assms by (simp add: invariant_def buckets_unique_drop)
  from assms u have "invariant (s\<lparr>tasks := ?tk'\<rparr>)"
    by (rule invariant_tasks) (rule drop_ids_old)
  then have "invariant (s\<lparr>tasks := ?tk', draggedTask := None\<rparr>)"
    by (rule invariant_dragged) simp
  then show ?thesis by (simp only: handleDayDrop_eq [OF Some])
qed

lemma invariant_folder_drop:
  assumes "invariant s"
  shows "invariant (handleFolderDrop s)"
proof (cases "draggedTask s")
  case None
  with assms show ?thesis by (simp add: handleFolderDrop_def)
next
  case (Some p)
  have "distinct (map task_id (folder s @ newTasksForFolder (folder s) (tasksOf p)))"
    using invariantD(2) [OF assms] invariantD(4) [OF assms Some] by (rule distinct_folder_add)
  with assms have "invariant (s\<lparr>folder := folder s @ newTasksForFolder (folder s) (tasksOf p)\<rparr>)"
    by (rule invariant_folder)
  then have "invariant (s\<lparr>folder := folder s @ newTasksForFolder (folder s) (tasksOf p),
      draggedTask := None\<rparr>)"
    by (rule invariant_dragged) simp
  then show ?thesis by (simp only: folder_after_drop [OF Some])
qed

lemma reachable_invariant: "reachable s \<Longrightarrow> invariant s"
proof (induction rule: reachable.induct)
  case r_initial
  show ?case by (rule invariant_initial)
qed (simp_all add: invariant_selectTask invariant_copy invariant_cut invariant_paste
    invariant_add invariant_remove invariant_open invariant_close invariant_form
    invariant_save invariant_drag invariant_drop invariant_folder_drop)

lemma invariant_uniqueness: "invariant s \<Longrightarrow> uniqueness s"
  by (simp add: invariant_def uniqueness_def buckets_unique_def)

text \<open>
  C1. In every state the component reaches from its seed, no task id is in two buckets
  and no task id is twice in the folder, and the same holds after any further handler:
  \<open>selectTask\<close>, \<open>copySelectedTasks\<close>, \<open>cutSelectedTasks\<close>, \<open>pasteTasksToDay\<close>,
  \<open>handleDayDrop\<close>, \<open>handleFolderDrop\<close>, \<open>addSelectedTasksToFolder\<close>, \<open>saveChanges\<close>,
  \<open>removeFromFolder\<close>.
\<close>

theorem reachable_uniqueness:
  assumes "reachable s"
  shows "uniqueness s
    \<and> uniqueness (selectTask t c s)
    \<and> uniqueness (copySelectedTasks s)
    \<and> uniqueness (cutSelectedTasks s)
    \<and> uniqueness (pasteTasksToDay B s)
    \<and> uniqueness (handleDayDrop B s)
    \<and> uniqueness (handleFolderDrop s)
    \<and> uniqueness (addSelectedTasksToFolder s)
    \<and> uniqueness (saveChanges s)
    \<and> uniqueness (removeFromFolder i s)"
proof -
  note inv = reachable_invariant [OF assms]
  show ?thesis
    by (intro conjI invariant_uniqueness inv invariant_selectTask invariant_copy invariant_cut
        invariant_paste invariant_drop invariant_folder_drop invariant_add invariant_save
        invariant_remove)
qed

theorem reachable_uniqueness_witness:
  "reachable (pasteTasksToDay Mardi (cutSelectedTasks cut_example))
   \<and> uniqueness (pasteTasksToDay Mardi (cutSelectedTasks cut_example))
   \<and> uniqueness (pasteTasksToDay Lundi (pasteTasksToDay Mardi (cutSelectedTasks cut_example)))
   \<and> tasks (pasteTasksToDay Mardi (cutSelectedTasks cut_example)) Mardi = initialTasks Mardi @ [t1]
   \<and> tasks (pasteTasksToDay Mardi (cutSelectedTasks cut_example)) Lundi
       = [mk 2 ''Analyse des besoins'' ''Recueillir les besoins client'' 5]"
proof -
  have r: "reachable (pasteTasksToDay Mardi (cutSelectedTasks cut_example))"
    unfolding cut_example_def by (intro reachable.intros)
  have ne: "selectedTasks cut_example \<noteq> []" by (simp add: cut_example_fields)
  have "tasks (pasteTasksToDay Mardi (cutSelectedTasks cut_example)) Mardi = initialTasks Mardi @ [t1]"
    "tasks (pasteTasksToDay Mardi (cutSelectedTasks cut_example)) Lundi
       = [mk 2 ''Analyse des besoins'' ''Recueillir les besoins client'' 5]"
    by (simp_all add: cut_then_paste [OF ne] cut_example_fields cutOne_def sourceDay_def
        weekdays_def some_id_def without_id_def t1_def mk_def)
  with r reachable_uniqueness [OF r, where B = Lundi] show ?thesis by simp
qed

section \<open>What becomes of a task (C5)\<close>

lemma task_ids_all_tasks: "task_ids (all_tasks tk) = (\<Union>d. task_ids (tk d))"
  by (auto simp: task_ids_def set_all_tasks)

lemma moved_ids_kept: "i \<in> task_ids (tk d) \<Longrightarrow> \<exists>d'. i \<in> task_ids (moved B tk t d')"
proof (cases "i = task_id t")
  case False
  assume "i \<in> task_ids (tk d)"
  with moved_other_id [OF False, of B tk d] show ?thesis
    by (auto simp: some_id_iff)
next
  case True
  assume i: "i \<in> task_ids (tk d)"
  show ?thesis
  proof (cases "sourceDay tk i")
    case None
    with i show ?thesis by (simp add: sourceDay_None_iff)
  next
    case (Some src)
    show ?thesis
    proof (cases "src = B")
      case True
      with Some \<open>i = task_id t\<close> i show ?thesis
        by (auto simp: moved_unowned)
    next
      case False
      with Some \<open>i = task_id t\<close> moved_source [of tk t src B] show ?thesis by auto
    qed
  qed
qed

lemma drop_ids_kept:
  "i \<in> task_ids (tk d) \<Longrightarrow> \<exists>d'. i \<in> task_ids (foldl (moved B) tk ts d')"
proof (induction ts arbitrary: tk d)
  case Nil
  then show ?case by auto
next
  case (Cons t ts)
  from moved_ids_kept [of i tk d B t] Cons.prems
  obtain d1 where "i \<in> task_ids (moved B tk t d1)" by blast
  with Cons.IH [of "moved B tk t" d1] show ?case by simp
qed

lemma cut_other_kept:
  "i \<notin> task_ids sel \<Longrightarrow> some_id (foldl cutOne tk sel d) i = some_id (tk d) i"
proof (induction sel arbitrary: tk)
  case Nil
  then show ?case by simp
next
  case (Cons t sel)
  then have "i \<noteq> task_id t" "i \<notin> task_ids sel" by auto
  with Cons.IH [of "cutOne tk t"] cutOne_other_id [of i t tk d] show ?case by simp
qed

lemma bucket_ids_selectTask: "tasks (selectTask t c s) = tasks s"
  by (simp add: selectTask_def Let_def)

lemma bucket_ids_copy: "tasks (copySelectedTasks s) = tasks s"
  by (simp add: copySelectedTasks_def Let_def)

lemma bucket_ids_add: "tasks (addSelectedTasksToFolder s) = tasks s"
  by (simp add: addSelectedTasksToFolder_def Let_def)

lemma bucket_ids_folder_drop: "tasks (handleFolderDrop s) = tasks s"
  by (simp add: handleFolderDrop_def Let_def split: option.splits)

lemma bucket_ids_save:
  "task_ids (all_tasks (tasks (saveChanges s))) = task_ids (all_tasks (tasks s))"
  by (cases "currentTask s")
    (simp_all add: saveChanges_def closeModal_def task_ids_all_tasks saveLoop_task_ids)

lemma bucket_ids_drop:
  "task_ids (all_tasks (tasks (handleDayDrop B s))) = task_ids (all_tasks (tasks s))"
proof (cases "draggedTask s")
  case None
  then show ?thesis by (simp add: handleDayDrop_def)
next
  case (Some p)
  let ?tk' = "foldl (moved B) (tasks s) (tasksOf p)"
  have "(\<Union>d. task_ids (?tk' d)) = (\<Union>d. task_ids (tasks s d))"
  proof (rule set_eqI)
    fix i
    have "(\<exists>d. i \<in> task_ids (?tk' d)) \<longleftrightarrow> (\<exists>d. i \<in> task_ids (tasks s d))"
    proof
      assume "\<exists>d. i \<in> task_ids (?tk' d)"
      then obtain d where "i \<in> task_ids (?tk' d)" ..
      then show "\<exists>d. i \<in> task_ids (tasks s d)" by (rule drop_ids_old)
    next
      assume "\<exists>d. i \<in> task_ids (tasks s d)"
      then obtain d where "i \<in> task_ids (tasks s d)" ..
      then show "\<exists>d. i \<in> task_ids (?tk' d)" by (rule drop_ids_kept)
    qed
    then show "i \<in> (\<Union>d. task_ids (?tk' d)) \<longleftrightarrow> i \<in> (\<Union>d. task_ids (tasks s d))"
      by simp
  qed
  then show ?thesis by (simp add: handleDayDrop_eq [OF Some] task_ids_all_tasks)
qed

lemma task_ids_all_tasks_upd:
  "task_ids (all_tasks (tk(d := tk d @ xs))) = task_ids (all_tasks tk) \<union> task_ids xs"
  by (simp add: task_ids_def set_all_tasks_upd image_Un)

lemma bucket_ids_paste:
  "task_ids (all_tasks (tasks s)) \<subseteq> task_ids (all_tasks (tasks (pasteTasksToDay B s)))"
  by (simp add: pasteTasksToDay_def task_ids_all_tasks_upd)

lemma bucket_ids_paste_cut:
  "clipboardMode s = Cut \<Longrightarrow>
     task_ids (all_tasks (tasks (pasteTasksToDay B s))) =
       task_ids (all_tasks (tasks s)) \<union> task_ids (clipboard s)"
  by (cases "clipboard s = []") (simp_all add: pasteTasksToDay_def task_ids_all_tasks_upd)

lemma bucket_ids_cut:
  "task_ids (all_tasks (tasks s)) \<subseteq>
     task_ids (all_tasks (tasks (cutSelectedTasks s))) \<union> task_ids (selectedTasks s)"
proof (cases "selectedTasks s = []")
  case True
  then show ?thesis by (simp add: cutSelectedTasks_def)
next
  case False
  have "i \<in> task_ids (foldl cutOne (tasks s) (selectedTasks s) d)"
    if "i \<in> task_ids (tasks s d)" "i \<notin> task_ids (selectedTasks s)" for i d
    using that cut_other_kept [of i "selectedTasks s" "tasks s" d] by (simp add: some_id_iff)
  then show ?thesis
    by (auto simp: cut_nonempty [OF False] task_ids_all_tasks)
qed

lemma live_ids_same:
  "task_ids (all_tasks (tasks s')) = task_ids (all_tasks (tasks s)) \<Longrightarrow>
   clipboard s' = clipboard s \<Longrightarrow> clipboardMode s' = clipboardMode s \<Longrightarrow>
   live_ids s' = live_ids s"
  by (simp add: live_ids_def)

lemma live_ids_selectTask: "live_ids (selectTask t c s) = live_ids s"
  by (rule live_ids_same) (simp_all add: selectTask_def Let_def)

lemma live_ids_drag: "live_ids (handleDragStart t s) = live_ids s"
  by (rule live_ids_same) (simp_all add: handleDragStart_fields)

lemma live_ids_add: "live_ids (addSelectedTasksToFolder s) = live_ids s"
  by (rule live_ids_same) (simp_all add: addSelectedTasksToFolder_def Let_def)

lemma live_ids_remove: "live_ids (removeFromFolder i s) = live_ids s"
  by (rule live_ids_same) (simp_all add: removeFromFolder_def)

lemma live_ids_folder_drop: "live_ids (handleFolderDrop s) = live_ids s"
  by (rule live_ids_same) (simp_all add: handleFolderDrop_def Let_def split: option.splits)

lemma live_ids_open: "live_ids (openEditModal t s) = live_ids s"
  by (rule live_ids_same) (simp_all add: openEditModal_def)

lemma live_ids_close: "live_ids (closeModal s) = live_ids s"
  by (rule live_ids_same) (simp_all add: closeModal_def)

lemma live_ids_form: "live_ids (handleFormChange c s) = live_ids s"
  by (cases c) (simp_all add: live_ids_def)

lemma live_ids_save: "live_ids (saveChanges s) = live_ids s"
proof (rule live_ids_same)
  show "task_ids (all_tasks (tasks (saveChanges s))) = task_ids (all_tasks (tasks s))"
    by (rule bucket_ids_save)
  show "clipboard (saveChanges s) = clipboard s" "clipboardMode (saveChanges s) = clipboardMode s"
    by (simp_all add: saveChanges_def closeModal_def split: option.splits)
qed

lemma live_ids_drop: "live_ids (handleDayDrop B s) = live_ids s"
proof (rule live_ids_same)
  show "task_ids (all_tasks (tasks (handleDayDrop B s))) = task_ids (all_tasks (tasks s))"
    by (rule bucket_ids_drop)
  show "clipboard (handleDayDrop B s) = clipboard s"
    by (cases "draggedTask s") (simp_all add: handleDayDrop_eq, simp add: handleDayDrop_def)
  show "clipboardMode (handleDayDrop B s) = clipboardMode s"
    by (cases "draggedTask s") (simp_all add: handleDayDrop_eq, simp add: handleDayDrop_def)
qed

lemma live_ids_paste: "live_ids s \<subseteq> live_ids (pasteTasksToDay B s)"
proof (cases "clipboard s = []")
  case True
  then show ?thesis by (simp add: paste_empty)
next
  case False
  show ?thesis
  proof (cases "clipboardMode s")
    case Copy
    with bucket_ids_paste [of s B] False show ?thesis
      by (simp add: live_ids_def paste_copy_mode)
  next
    case Cut
    with bucket_ids_paste_cut [OF Cut, of B] show ?thesis
      by (auto simp: live_ids_def)
  qed
qed

lemma live_ids_copy:
  "clipboardMode s = Copy \<or> clipboard s = [] \<or> selectedTasks s = [] \<Longrightarrow>
     live_ids s \<subseteq> live_ids (copySelectedTasks s)"
  by (auto simp: live_ids_def copySelectedTasks_def Let_def)

lemma live_ids_cut:
  assumes "clipboardMode s = Copy \<or> clipboard s = [] \<or> selectedTasks s = []"
  shows "live_ids s \<subseteq> live_ids (cutSelectedTasks s)"
proof (cases "selectedTasks s = []")
  case True
  then show ?thesis by (simp add: cutSelectedTasks_def)
next
  case False
  with assms have "live_ids s = task_ids (all_tasks (tasks s))"
    by (auto simp: live_ids_def)
  moreover have "live_ids (cutSelectedTasks s) =
      task_ids (all_tasks (tasks (cutSelectedTasks s))) \<union> task_ids (selectedTasks s)"
    by (simp add: live_ids_def cut_nonempty [OF False])
  ultimately show ?thesis using bucket_ids_cut [of s] by simp
qed

lemma cut_absent:
  assumes "reachable s"
  shows "task_ids (selectedTasks s) \<inter> task_ids (all_tasks (tasks (cutSelectedTasks s))) = {}"
proof (cases "selectedTasks s = []")
  case True
  then show ?thesis by simp
next
  case False
  have u: "buckets_unique (tasks s)"
    using assms by (intro invariantD(1) reachable_invariant)
  have "i \<notin> task_ids (foldl cutOne (tasks s) (selectedTasks s) d)"
    if "i \<in> task_ids (selectedTasks s)" for i d
    using u that by (rule cut_removes_selected)
  then show ?thesis
    by (auto simp: cut_nonempty [OF False] task_ids_all_tasks)
qed

lemma saveChanges_bucket_ids: "map task_id (tasks (saveChanges s) d) = map task_id (tasks s d)"
  by (cases "currentTask s") (simp_all add: saveChanges_def closeModal_def saveLoop_ids)

lemma clipboard_kept:
  "clipboard (selectTask t c s) = clipboard s"
  "clipboardMode (selectTask t c s) = clipboardMode s"
  "clipboard (handleDragStart t s) = clipboard s"
  "clipboardMode (handleDragStart t s) = clipboardMode s"
  "clipboard (handleFolderDrop s) = clipboard s"
  "clipboardMode (handleFolderDrop s) = clipboardMode s"
  "clipboard (addSelectedTasksToFolder s) = clipboard s"
  "clipboardMode (addSelectedTasksToFolder s) = clipboardMode s"
  "clipboard (openEditModal t s) = clipboard s"
  "clipboardMode (openEditModal t s) = clipboardMode s"
  "clipboard (closeModal s) = clipboard s"
  "clipboardMode (closeModal s) = clipboardMode s"
  "clipboard (removeFromFolder i s) = clipboard s"
  "clipboardMode (removeFromFolder i s) = clipboardMode s"
  by (simp_all add: selectTask_def handleDragStart_fields handleFolderDrop_def
      addSelectedTasksToFolder_def openEditModal_def closeModal_def removeFromFolder_def
      Let_def split: option.splits)

lemma clipboard_kept_form:
  "clipboard (handleFormChange f s) = clipboard s"
  "clipboardMode (handleFormChange f s) = clipboardMode s"
  by (cases f; simp)+

lemma clipboard_kept_save:
  "clipboard (saveChanges s) = clipboard s"
  "clipboardMode (saveChanges s) = clipboardMode s"
  by (simp_all add: saveChanges_def closeModal_def split: option.splits)

lemma clipboard_kept_drop:
  "clipboard (handleDayDrop B s) = clipboard s"
  "clipboardMode (handleDayDrop B s) = clipboardMode s"
proof -
  show "clipboard (handleDayDrop B s) = clipboard s"
    by (cases "draggedTask s") (simp_all add: handleDayDrop_eq, simp add: handleDayDrop_def)
  show "clipboardMode (handleDayDrop B s) = clipboardMode s"
    by (cases "draggedTask s") (simp_all add: handleDayDrop_eq, simp add: handleDayDrop_def)
qed

lemma tasks_kept:
  "tasks (selectTask t c s) = tasks s"
  "tasks (copySelectedTasks s) = tasks s"
  "tasks (handleDragStart t s) = tasks s"
  "tasks (handleFolderDrop s) = tasks s"
  "tasks (addSelectedTasksToFolder s) = tasks s"
  "tasks (openEditModal t s) = tasks s"
  "tasks (closeModal s) = tasks s"
  "tasks (removeFromFolder i s) = tasks s"
  by (simp_all add: bucket_ids_selectTask bucket_ids_copy handleDragStart_fields
      bucket_ids_folder_drop bucket_ids_add openEditModal_def closeModal_def removeFromFolder_def)

lemma tasks_kept_form: "tasks (handleFormChange f s) = tasks s"
  by (cases f) simp_all

lemma empty_selection_noop:
  "selectedTasks s = [] \<longrightarrow> cutSelectedTasks s = s \<and> copySelectedTasks s = s"
  by (simp add: cutSelectedTasks_def copySelectedTasks_def)

lemma overwrite_clipboard:
  "selectedTasks s \<noteq> [] \<longrightarrow>
     clipboard (cutSelectedTasks s) = selectedTasks s
     \<and> clipboardMode (cutSelectedTasks s) = Cut
     \<and> task_ids (selectedTasks s) \<subseteq> live_ids (cutSelectedTasks s)
     \<and> clipboard (copySelectedTasks s) = selectedTasks s
     \<and> clipboardMode (copySelectedTasks s) = Copy
     \<and> live_ids (copySelectedTasks s) = task_ids (all_tasks (tasks s))"
  by (simp add: cut_nonempty copy_nonempty live_ids_def)

lemma paste_cases:
  "clipboard s = [] \<longrightarrow> pasteTasksToDay B s = s"
  "clipboard s \<noteq> [] \<and> clipboardMode s = Cut \<longrightarrow>
     tasks (pasteTasksToDay B s) B = tasks s B @ clipboard s
     \<and> (\<forall>d. d \<noteq> B \<longrightarrow> tasks (pasteTasksToDay B s) d = tasks s d)
     \<and> clipboard (pasteTasksToDay B s) = []
     \<and> clipboardMode (pasteTasksToDay B s) = Copy"
  "clipboardMode s = Copy \<longrightarrow>
     clipboard (pasteTasksToDay B s) = clipboard s
     \<and> clipboardMode (pasteTasksToDay B s) = Copy"
  by (simp_all add: pasteTasksToDay_def)

text \<open>
  C5, as the code has it, on task ids (the entry kept under an id can get other content
  from \<open>saveChanges\<close> and from a drop, which inserts the payload's value). Every handler
  but \<open>cutSelectedTasks\<close> keeps every id of the buckets: most leave the buckets as they
  are, \<open>saveChanges\<close> keeps the ids of every bucket in place, \<open>handleDayDrop\<close> keeps the
  set of bucket ids, \<open>pasteTasksToDay\<close> only adds. \<open>cutSelectedTasks\<close> takes only
  selected ids out of the buckets and, with a non-empty selection, makes the selection
  the clipboard in mode cut; in a reachable state the cut ids are then in no bucket.
  No handler but \<open>copySelectedTasks\<close>, \<open>cutSelectedTasks\<close> and \<open>pasteTasksToDay\<close>
  changes the clipboard or its mode. A cut-mode paste appends the clipboard to the
  target bucket and empties the clipboard; a copy-mode paste keeps it.
  \<open>copySelectedTasks\<close> and \<open>cutSelectedTasks\<close> do nothing with an empty selection and
  otherwise replace the clipboard by the selection, whatever it held: the ids of a
  waiting cut clipboard are kept only when they are selected again or still in a bucket.
  So an id of the buckets or of a waiting cut clipboard is kept by every handler, except
  by a copy or cut that overwrites a waiting cut clipboard. \<open>removeFromFolder\<close> removes
  the folder entries with the id and leaves the buckets as they are.
\<close>

theorem tasks_conserved:
  "tasks (selectTask t c s) = tasks s
   \<and> tasks (copySelectedTasks s) = tasks s
   \<and> tasks (handleDragStart t s) = tasks s
   \<and> tasks (handleFolderDrop s) = tasks s
   \<and> tasks (addSelectedTasksToFolder s) = tasks s
   \<and> tasks (openEditModal t s) = tasks s
   \<and> tasks (handleFormChange f s) = tasks s
   \<and> tasks (closeModal s) = tasks s
   \<and> tasks (removeFromFolder i s) = tasks s
   \<and> folder (removeFromFolder i s) = filter (\<lambda>x. task_id x \<noteq> i) (folder s)
   \<and> (\<forall>d. map task_id (tasks (saveChanges s) d) = map task_id (tasks s d))
   \<and> task_ids (all_tasks (tasks (handleDayDrop B s))) = task_ids (all_tasks (tasks s))
   \<and> task_ids (all_tasks (tasks s)) \<subseteq> task_ids (all_tasks (tasks (pasteTasksToDay B s)))
   \<and> task_ids (all_tasks (tasks s))
        \<subseteq> task_ids (all_tasks (tasks (cutSelectedTasks s))) \<union> task_ids (selectedTasks s)
   \<and> (selectedTasks s = [] \<longrightarrow> cutSelectedTasks s = s \<and> copySelectedTasks s = s)
   \<and> (selectedTasks s \<noteq> [] \<longrightarrow>
        clipboard (cutSelectedTasks s) = selectedTasks s
        \<and> clipboardMode (cutSelectedTasks s) = Cut
        \<and> task_ids (selectedTasks s) \<subseteq> live_ids (cutSelectedTasks s)
        \<and> clipboard (copySelectedTasks s) = selectedTasks s
        \<and> clipboardMode (copySelectedTasks s) = Copy
        \<and> live_ids (copySelectedTasks s) = task_ids (all_tasks (tasks s)))
   \<and> (reachable s \<longrightarrow>
        task_ids (selectedTasks s) \<inter> task_ids (all_tasks (tasks (cutSelectedTasks s))) = {})
   \<and> clipboard (selectTask t c s) = clipboard s
   \<and> clipboardMode (selectTask t c s) = clipboardMode s
   \<and> clipboard (handleDragStart t s) = clipboard s
   \<and> clipboardMode (handleDragStart t s) = clipboardMode s
   \<and> clipboard (handleDayDrop B s) = clipboard s
   \<and> clipboardMode (handleDayDrop B s) = clipboardMode s
   \<and> clipboard (handleFolderDrop s) = clipboard s
   \<and> clipboardMode (handleFolderDrop s) = clipboardMode s
   \<and> clipboard (addSelectedTasksToFolder s) = clipboard s
   \<and> clipboardMode (addSelectedTasksToFolder s) = clipboardMode s
   \<and> clipboard (openEditModal t s) = clipboard s
   \<and> clipboardMode (openEditModal t s) = clipboardMode s
   \<and> clipboard (handleFormChange f s) = clipboard s
   \<and> clipboardMode (handleFormChange f s) = clipboardMode s
   \<and> clipboard (closeModal s) = clipboard s
   \<and> clipboardMode (closeModal s) = clipboardMode s
   \<and> clipboard (saveChanges s) = clipboard s
   \<and> clipboardMode (saveChanges s) = clipboardMode s
   \<and> clipboard (removeFromFolder i s) = clipboard s
   \<and> clipboardMode (removeFromFolder i s) = clipboardMode s
   \<and> (clipboard s = [] \<longrightarrow> pasteTasksToDay B s = s)
   \<and> (clipboard s \<noteq> [] \<and> clipboardMode s = Cut \<longrightarrow>
        tasks (pasteTasksToDay B s) B = tasks s B @ clipboard s
        \<and> (\<forall>d. d \<noteq> B \<longrightarrow> tasks (pasteTasksToDay B s) d = tasks s d)
        \<and> clipboard (pasteTasksToDay B s) = []
        \<and> clipboardMode (pasteTasksToDay B s) = Copy)
   \<and> (clipboardMode s = Copy \<longrightarrow>
        clipboard (pasteTasksToDay B s) = clipboard s
        \<and> clipboardMode (pasteTasksToDay B s) = Copy)
   \<and> (clipboardMode s = Cut \<longrightarrow>
        task_ids (clipboard s) \<subseteq> task_ids (all_tasks (tasks (pasteTasksToDay B s))))
   \<and> live_ids s \<subseteq> live_ids (selectTask t c s)
   \<and> live_ids s \<subseteq> live_ids (pasteTasksToDay B s)
   \<and> live_ids s \<subseteq> live_ids (handleDragStart t s)
   \<and> live_ids s \<subseteq> live_ids (handleDayDrop B s)
   \<and> live_ids s \<subseteq> live_ids (handleFolderDrop s)
   \<and> live_ids s \<subseteq> live_ids (addSelectedTasksToFolder s)
   \<and> live_ids s \<subseteq> live_ids (openEditModal t s)
   \<and> live_ids s \<subseteq> live_ids (handleFormChange f s)
   \<and> live_ids s \<subseteq> live_ids (closeModal s)
   \<and> live_ids s \<subseteq> live_ids (saveChanges s)
   \<and> live_ids s \<subseteq> live_ids (removeFromFolder i s)
   \<and> (clipboardMode s = Copy \<or> clipboard s = [] \<or> selectedTasks s = [] \<longrightarrow>
        live_ids s \<subseteq> live_ids (copySelectedTasks s)
        \<and> live_ids s \<subseteq> live_ids (cutSelectedTasks s))"
proof -
  have rem: "folder (removeFromFolder i s) = filter (\<lambda>x. task_id x \<noteq> i) (folder s)"
    by (simp add: removeFromFolder_def without_id_def)
  have save: "\<forall>d. map task_id (tasks (saveChanges s) d) = map task_id (tasks s d)"
    by (simp add: saveChanges_bucket_ids)
  have absent: "reachable s \<longrightarrow>
        task_ids (selectedTasks s) \<inter> task_ids (all_tasks (tasks (cutSelectedTasks s))) = {}"
    by (simp add: cut_absent)
  have returned: "clipboardMode s = Cut \<longrightarrow>
        task_ids (clipboard s) \<subseteq> task_ids (all_tasks (tasks (pasteTasksToDay B s)))"
    by (simp add: bucket_ids_paste_cut)
  have keep: "live_ids s \<subseteq> live_ids (selectTask t c s)"
    "live_ids s \<subseteq> live_ids (pasteTasksToDay B s)"
    "live_ids s \<subseteq> live_ids (handleDragStart t s)"
    "live_ids s \<subseteq> live_ids (handleDayDrop B s)"
    "live_ids s \<subseteq> live_ids (handleFolderDrop s)"
    "live_ids s \<subseteq> live_ids (addSelectedTasksToFolder s)"
    "live_ids s \<subseteq> live_ids (openEditModal t s)"
    "live_ids s \<subseteq> live_ids (handleFormChange f s)"
    "live_ids s \<subseteq> live_ids (closeModal s)"
    "live_ids s \<subseteq> live_ids (saveChanges s)"
    "live_ids s \<subseteq> live_ids (removeFromFolder i s)"
    by (simp_all add: live_ids_selectTask live_ids_paste live_ids_drag live_ids_drop
        live_ids_folder_drop live_ids_add live_ids_open live_ids_form live_ids_close
        live_ids_save live_ids_remove)
  have over: "clipboardMode s = Copy \<or> clipboard s = [] \<or> selectedTasks s = [] \<longrightarrow>
        live_ids s \<subseteq> live_ids (copySelectedTasks s)
        \<and> live_ids s \<subseteq> live_ids (cutSelectedTasks s)"
    using live_ids_copy [of s] live_ids_cut [of s] by blast
  show ?thesis
    by (intro conjI tasks_kept tasks_kept_form rem save bucket_ids_drop bucket_ids_paste
        bucket_ids_cut empty_selection_noop overwrite_clipboard absent clipboard_kept
        clipboard_kept_form clipboard_kept_save clipboard_kept_drop paste_cases returned
        keep over)
qed

lemma reachable_cut_example: "reachable cut_example"
  unfolding cut_example_def by (intro reachable.intros)

theorem tasks_conserved_witness:
  "reachable cut_example
   \<and> selectedTasks cut_example \<noteq> []
   \<and> clipboardMode (cutSelectedTasks cut_example) = Cut
   \<and> task_id t1 \<in> live_ids (cutSelectedTasks cut_example)
   \<and> task_id t1 \<notin> task_ids (all_tasks (tasks (cutSelectedTasks cut_example)))
   \<and> task_id t1 \<in> task_ids (all_tasks (tasks (pasteTasksToDay Mardi (cutSelectedTasks cut_example))))
   \<and> clipboard (selectTask t3 False (cutSelectedTasks cut_example)) = [t1]
   \<and> task_id t1 \<notin> live_ids (copySelectedTasks (selectTask t3 False (cutSelectedTasks cut_example)))"
proof -
  let ?c = "cutSelectedTasks cut_example"
  let ?s = "selectTask t3 False ?c"
  have ne: "selectedTasks cut_example \<noteq> []" and mem: "task_id t1 \<in> task_ids (selectedTasks cut_example)"
    by (simp_all add: cut_example_fields)
  note at_start = tasks_conserved [of t3 False cut_example]
  from at_start ne reachable_cut_example
  have a: "clipboard ?c = selectedTasks cut_example"
    "clipboardMode ?c = Cut"
    "task_ids (selectedTasks cut_example) \<subseteq> live_ids ?c"
    "task_ids (selectedTasks cut_example) \<inter> task_ids (all_tasks (tasks ?c)) = {}"
    by simp_all
  note at_cut = tasks_conserved [of t3 False ?c _ _ Mardi]
  from at_cut a(2)
  have returned: "task_ids (clipboard ?c) \<subseteq> task_ids (all_tasks (tasks (pasteTasksToDay Mardi ?c)))"
    by simp
  from at_cut have kept: "clipboard ?s = clipboard ?c" "tasks ?s = tasks ?c"
    by simp_all
  have sel: "selectedTasks ?s \<noteq> []"
    by (simp add: selectTask_def cut_nonempty [OF ne])
  note at_select = tasks_conserved [of t3 False ?s]
  from at_select sel
  have "live_ids (copySelectedTasks ?s) = task_ids (all_tasks (tasks ?s))"
    by simp
  with kept(2) a(4) mem have lost: "task_id t1 \<notin> live_ids (copySelectedTasks ?s)"
    by auto
  from kept(1) a(1) have clip: "clipboard ?s = [t1]"
    by (simp add: cut_example_fields)
  from a(3) mem have live: "task_id t1 \<in> live_ids ?c" by blast
  from a(4) mem have gone: "task_id t1 \<notin> task_ids (all_tasks (tasks ?c))" by blast
  from returned a(1) mem
  have back_in: "task_id t1 \<in> task_ids (all_tasks (tasks (pasteTasksToDay Mardi ?c)))"
    by auto
  from reachable_cut_example ne a(2) live gone back_in clip lost
  show ?thesis by (intro conjI)
qed

lemma lost_example_fields:
  "tasks lost_example = initialTasks(Vendredi := [])"
  "clipboard lost_example = [t1]"
  "clipboardMode lost_example = Copy"
  by (simp_all add: lost_example_def copySelectedTasks_def cutSelectedTasks_def selectTask_def
      initial_def cutOne_def sourceDay_def weekdays_def some_id_def without_id_def
      t1_def t8_def mk_def Let_def)

lemma reachable_lost_example: "reachable lost_example"
  unfolding lost_example_def by (intro reachable.intros)

text \<open>
  C5, as the specification words it, fails: after task 8 is cut and task 1 is copied,
  with no paste in between, the id 8 of the seed is in no bucket and not in the
  clipboard.
\<close>

theorem cut_task_lost_counterexample:
  "\<not> (\<forall>s i. reachable s \<longrightarrow> i \<in> task_ids (all_tasks (tasks initial)) \<longrightarrow>
         i \<in> task_ids (all_tasks (tasks s)) \<or> i \<in> task_ids (clipboard s))"
proof
  assume h: "\<forall>s i. reachable s \<longrightarrow> i \<in> task_ids (all_tasks (tasks initial)) \<longrightarrow>
         i \<in> task_ids (all_tasks (tasks s)) \<or> i \<in> task_ids (clipboard s)"
  have "8 \<in> task_ids (all_tasks (tasks initial))"
    by (simp add: initial_def all_tasks_def weekdays_def mk_def)
  with h reachable_lost_example
  have "8 \<in> task_ids (all_tasks (tasks lost_example)) \<or> 8 \<in> task_ids (clipboard lost_example)"
    by blast
  then show False
    by (simp add: lost_example_fields all_tasks_def weekdays_def t1_def mk_def)
qed

section \<open>Ids of pasted copies (C4)\<close>

lemma reuse_example_fields:
  "tasks reuse_example = initialTasks(Vendredi := [])"
  "clipboard reuse_example = [t1]"
  "clipboardMode reuse_example = Copy"
  "folder reuse_example = [t8]"
  "selectedTasks reuse_example = [t1]"
  by (simp_all add: reuse_example_def copySelectedTasks_def cutSelectedTasks_def selectTask_def
      addSelectedTasksToFolder_def newTasksForFolder_def
      initial_def cutOne_def sourceDay_def weekdays_def some_id_def without_id_def
      t1_def t8_def mk_def Let_def)

lemma reachable_reuse_example: "reachable reuse_example"
  unfolding reuse_example_def by (intro reachable.intros)

text \<open>
  C4. The id monotonicity of the specification does not hold of the code. In this
  reachable state the folder holds task 8 and the buckets hold the ids 1 to 7; the
  copy-mode paste gives the duplicate of task 1 the id 8, which is not greater than the
  id of the folder entry, and which task 8 of the seed had before.
\<close>

theorem paste_reuses_folder_id:
  "reachable reuse_example
   \<and> clipboardMode reuse_example = Copy
   \<and> clipboard reuse_example = [t1]
   \<and> folder reuse_example = [t8]
   \<and> task_id t8 = 8
   \<and> nextId (tasks reuse_example) = 8
   \<and> tasks (pasteTasksToDay Samedi reuse_example) Samedi = [t1\<lparr>task_id := 8\<rparr>]
   \<and> folder (pasteTasksToDay Samedi reuse_example) = [t8]"
proof -
  have n: "nextId (tasks reuse_example) = 8"
    by (simp add: reuse_example_fields nextId_def all_tasks_def weekdays_def mk_def)
  have ne: "clipboard reuse_example \<noteq> []" by (simp add: reuse_example_fields)
  have "tasks (pasteTasksToDay Samedi reuse_example) Samedi =
      tasks reuse_example Samedi @ taskCopies (nextId (tasks reuse_example)) (clipboard reuse_example)"
    "folder (pasteTasksToDay Samedi reuse_example) = folder reuse_example"
    by (simp_all add: paste_copy_mode [OF ne reuse_example_fields(3)])
  then have "tasks (pasteTasksToDay Samedi reuse_example) Samedi = [t1\<lparr>task_id := 8\<rparr>]"
    "folder (pasteTasksToDay Samedi reuse_example) = [t8]"
    by (simp_all add: n) (simp_all add: reuse_example_fields)
  with n reachable_reuse_example show ?thesis
    by (simp add: reuse_example_fields t8_def mk_def)
qed

section \<open>Ids of copies pasted twice (C3)\<close>

text \<open>
  C3. The duplication law of the specification does not hold of the code where it asks
  for fresh ids. In the reachable state above (the folder holds task 8, task 1 is
  selected, the buckets hold the ids 1 to 7), \<open>copySelectedTasks\<close> and two
  \<open>pasteTasksToDay Samedi\<close> give the two duplicates of task 1 the ids 8 and 9: the first
  is the id of the folder entry and of task 8 of the seed. The rest of the law holds on
  every state, see \<open>copy_paste_twice\<close>.
\<close>

theorem copy_paste_twice_reuses_folder_id:
  "reachable reuse_example
   \<and> selectedTasks reuse_example = [t1]
   \<and> folder reuse_example = [t8]
   \<and> task_id t8 = 8
   \<and> tasks reuse_example Samedi = []
   \<and> tasks (pasteTasksToDay Samedi (pasteTasksToDay Samedi (copySelectedTasks reuse_example))) Samedi
       = [t1\<lparr>task_id := 8\<rparr>, t1\<lparr>task_id := 9\<rparr>]
   \<and> folder (pasteTasksToDay Samedi (pasteTasksToDay Samedi (copySelectedTasks reuse_example)))
       = [t8]"
proof -
  let ?c = "copySelectedTasks reuse_example"
  have ne: "selectedTasks reuse_example \<noteq> []" by (simp add: reuse_example_fields)
  have c: "clipboard ?c = [t1]" "clipboardMode ?c = Copy" "tasks ?c = tasks reuse_example"
    "folder ?c = [t8]"
    by (simp_all add: copy_nonempty [OF ne] reuse_example_fields)
  have cne: "clipboard ?c \<noteq> []" by (simp add: c)
  have n: "nextId (tasks ?c) = 8"
    by (simp add: c reuse_example_fields nextId_def all_tasks_def weekdays_def mk_def)
  have "tasks (pasteTasksToDay Samedi (pasteTasksToDay Samedi ?c)) Samedi =
      tasks ?c Samedi @ taskCopies (nextId (tasks ?c)) (clipboard ?c)
        @ taskCopies (nextId (tasks ?c) + int (length (clipboard ?c))) (clipboard ?c)"
    by (rule paste_copy_twice(1) [OF cne c(2)])
  then have a: "tasks (pasteTasksToDay Samedi (pasteTasksToDay Samedi ?c)) Samedi
       = [t1\<lparr>task_id := 8\<rparr>, t1\<lparr>task_id := 9\<rparr>]"
    by (simp add: n) (simp add: c reuse_example_fields)
  have f1: "folder (pasteTasksToDay Samedi s) = folder s" for s
    by (simp add: pasteTasksToDay_def)
  have b: "folder (pasteTasksToDay Samedi (pasteTasksToDay Samedi ?c)) = [t8]"
    by (simp only: f1 c)
  have e: "tasks reuse_example Samedi = []" by (simp add: reuse_example_fields)
  have i: "task_id t8 = 8" by (simp add: t8_def mk_def)
  from reachable_reuse_example reuse_example_fields(5) reuse_example_fields(4) i e a b
  show ?thesis by (intro conjI)
qed

section \<open>Reachable states meet the side conditions used above\<close>

lemma reachable_selection_distinct: "reachable s \<Longrightarrow> distinct (map task_id (selectedTasks s))"
  by (intro invariantD(3) reachable_invariant)

lemma reachable_single_owner:
  assumes "reachable s" and "sourceDay (tasks s) i = Some d" and "d' \<noteq> d"
  shows "i \<notin> task_ids (tasks s d')"
proof -
  have "buckets_unique (tasks s)"
    using assms(1) by (intro invariantD(1) reachable_invariant)
  moreover have "i \<in> task_ids (tasks s d)"
    using assms(2) by (rule sourceDay_SomeD)
  ultimately show ?thesis using assms(3) by (rule buckets_unique_owner)
qed

end
